theory Spec2Isabelle
  imports Main "HOL-Library.Word"
begin

section \<open>JavaScript strings\<close>

text \<open>
  A JavaScript string is a sequence of UTF-16 code units; \<open>length\<close>, \<open>split\<close>,
  \<open>indexOf\<close> and the regular expressions of the hooks (none has the \<open>u\<close> flag) all
  work on code units. \<open>js\<close> turns an ASCII literal into such a string.
\<close>

type_synonym jschar = "16 word"
type_synonym jsstring = "jschar list"

definition js :: "string \<Rightarrow> jsstring" where
  "js s = map of_char s"

definition newline :: jschar where
  "newline = 0x0A"

definition slash :: jschar where
  "slash = 0x2F"

definition dot :: jschar where
  "dot = 0x2E"

text \<open>\<open>s.split(c)\<close> for a separator of one code unit: never empty, one piece more than
  there are separators.\<close>

fun js_split :: "jschar \<Rightarrow> jsstring \<Rightarrow> jsstring list" where
  "js_split c [] = [[]]"
| "js_split c (x # xs) =
     (if x = c then [] # js_split c xs
      else (case js_split c xs of [] \<Rightarrow> [[x]] | p # ps \<Rightarrow> (x # p) # ps))"

text \<open>\<open>pieces.join(c)\<close>.\<close>

fun js_join :: "jschar \<Rightarrow> jsstring list \<Rightarrow> jsstring" where
  "js_join c [] = []"
| "js_join c [p] = p"
| "js_join c (p # q # ps) = p @ c # js_join c (q # ps)"

definition startsWith :: "jsstring \<Rightarrow> jsstring \<Rightarrow> bool" where
  "startsWith s p = (take (length p) s = p)"

definition endsWith :: "jsstring \<Rightarrow> jsstring \<Rightarrow> bool" where
  "endsWith s p = (length p \<le> length s \<and> drop (length s - length p) s = p)"

fun index_of :: "jsstring \<Rightarrow> jsstring \<Rightarrow> nat option" where
  "index_of [] p = (if p = [] then Some 0 else None)"
| "index_of (x # xs) p =
     (if startsWith (x # xs) p then Some 0 else map_option Suc (index_of xs p))"

text \<open>\<open>s.indexOf(p)\<close> is -1 when \<open>p\<close> does not occur.\<close>

definition indexOf :: "jsstring \<Rightarrow> jsstring \<Rightarrow> int" where
  "indexOf s p = (case index_of s p of None \<Rightarrow> - 1 | Some i \<Rightarrow> int i)"

definition js_includes :: "jsstring \<Rightarrow> jsstring \<Rightarrow> bool" where
  "js_includes s p = (index_of s p \<noteq> None)"

text \<open>\<open>s.slice(start)\<close>: a negative start counts from the end.\<close>

definition slice_from :: "jsstring \<Rightarrow> int \<Rightarrow> jsstring" where
  "slice_from s i = (if i < 0 then drop (nat (int (length s) + i)) s else drop (nat i) s)"

text \<open>
  \<open>s.toLowerCase()\<close> on the ASCII letters. The other code units are left alone here;
  their Unicode lower-case forms contain none of the code units that \<open>isTestFile\<close> looks
  for (\<open>.\<close>, \<open>_\<close>, \<open>c\<close>, \<open>e\<close>, \<open>p\<close>, \<open>s\<close>, \<open>t\<close>), which is the only use of the result.
\<close>

definition lower :: "jschar \<Rightarrow> jschar" where
  "lower c = (if 0x41 \<le> c \<and> c \<le> 0x5A then c + 0x20 else c)"

definition toLowerCase :: "jsstring \<Rightarrow> jsstring" where
  "toLowerCase s = map lower s"

text \<open>A number inside a template literal: its decimal digits.\<close>

definition digit :: "nat \<Rightarrow> jschar" where
  "digit d = 0x30 + of_nat d"

fun show_nat :: "nat \<Rightarrow> jsstring" where
  "show_nat n = (if n < 10 then [digit n] else show_nat (n div 10) @ [digit (n mod 10)])"

declare show_nat.simps [simp del]

section \<open>Regular expressions\<close>

text \<open>
  The fragment of the regular expressions that the two hooks use: single code units,
  the classes \<open>.\<close>, \<open>\s\<close>, \<open>\w\<close> and \<open>[^c]\<close>, greedy repetition of a class,
  sequence and alternation. The matcher keeps the candidates in the order in which a
  backtracking engine tries them, so the first one is the match JavaScript reports.
\<close>

datatype cls = One jschar | NotOne jschar | Dot | Space | Word

datatype rx = Eps | Atom cls | Star cls | Seq rx rx | Alt rx rx

definition Plus :: "cls \<Rightarrow> rx" where
  "Plus k = Seq (Atom k) (Star k)"

definition lit :: "string \<Rightarrow> rx" where
  "lit s = foldr (\<lambda>c r. Seq (Atom (One (of_char c))) r) s Eps"

definition is_space :: "jschar \<Rightarrow> bool" where
  "is_space c \<longleftrightarrow>
     c \<in> {0x09, 0x0A, 0x0B, 0x0C, 0x0D, 0x20, 0xA0, 0x1680, 0x2028, 0x2029, 0x202F,
          0x205F, 0x3000, 0xFEFF} \<or> (0x2000 \<le> c \<and> c \<le> 0x200A)"

definition is_word :: "jschar \<Rightarrow> bool" where
  "is_word c \<longleftrightarrow>
     (0x30 \<le> c \<and> c \<le> 0x39) \<or> (0x41 \<le> c \<and> c \<le> 0x5A) \<or> c = 0x5F \<or>
     (0x61 \<le> c \<and> c \<le> 0x7A)"

text \<open>
  Canonicalisation under the \<open>i\<close> flag (no \<open>u\<close> flag): a code unit below 128 is
  upper-cased, and no code unit from 128 on is mapped below 128. Every code unit in the
  patterns is ASCII, so only the ASCII part of the mapping decides a comparison.
\<close>

definition canon :: "jschar \<Rightarrow> jschar" where
  "canon c = (if 0x61 \<le> c \<and> c \<le> 0x7A then c - 0x20 else c)"

fun cls_has :: "bool \<Rightarrow> cls \<Rightarrow> jschar \<Rightarrow> bool" where
  "cls_has i (One x) c = (if i then canon c = canon x else c = x)"
| "cls_has i (NotOne x) c = (if i then canon c \<noteq> canon x else c \<noteq> x)"
| "cls_has i Dot c = (c \<notin> {0x0A, 0x0D, 0x2028, 0x2029})"
| "cls_has i Space c = is_space c"
| "cls_has i Word c = is_word c"

text \<open>Greedy repetition: the rests of the input, the longest run first.\<close>

fun star_rests :: "(jschar \<Rightarrow> bool) \<Rightarrow> jsstring \<Rightarrow> jsstring list" where
  "star_rests p [] = [[]]"
| "star_rests p (c # cs) = (if p c then star_rests p cs @ [c # cs] else [c # cs])"

text \<open>\<open>rmatch i r s\<close>: what is left of \<open>s\<close> after each way of matching \<open>r\<close> at its
  start, in backtracking order; \<open>i\<close> is the ignore-case flag.\<close>

fun rmatch :: "bool \<Rightarrow> rx \<Rightarrow> jsstring \<Rightarrow> jsstring list" where
  "rmatch i Eps s = [s]"
| "rmatch i (Atom k) s = (case s of [] \<Rightarrow> [] | c # cs \<Rightarrow> if cls_has i k c then [cs] else [])"
| "rmatch i (Star k) s = star_rests (cls_has i k) s"
| "rmatch i (Seq a b) s = concat (map (rmatch i b) (rmatch i a s))"
| "rmatch i (Alt a b) s = rmatch i a s @ rmatch i b s"

text \<open>\<open>re.test(s)\<close> for a pattern without the \<open>g\<close> flag: is there a match at some
  position.\<close>

fun rx_test :: "bool \<Rightarrow> rx \<Rightarrow> jsstring \<Rightarrow> bool" where
  "rx_test i r [] = (rmatch i r [] \<noteq> [])"
| "rx_test i r (c # cs) = (rmatch i r (c # cs) \<noteq> [] \<or> rx_test i r cs)"

text \<open>
  \<open>s.match(re) || []\<close> for a pattern with the \<open>g\<close> flag: the matched texts from left to
  right, each search starting where the last match ended (one further on after an empty
  match). \<open>k\<close> counts the code units still covered by the last match.
\<close>

fun match_scan :: "bool \<Rightarrow> rx \<Rightarrow> nat \<Rightarrow> jsstring \<Rightarrow> jsstring list" where
  "match_scan i r k [] = (if k = 0 \<and> rmatch i r [] \<noteq> [] then [[]] else [])"
| "match_scan i r k (c # cs) =
     (if 0 < k then match_scan i r (k - 1) cs
      else (case rmatch i r (c # cs) of
              [] \<Rightarrow> match_scan i r 0 cs
            | rest # _ \<Rightarrow>
                (let n = length (c # cs) - length rest
                 in take n (c # cs) # match_scan i r (n - 1) cs)))"

definition match_all :: "bool \<Rightarrow> rx \<Rightarrow> jsstring \<Rightarrow> jsstring list" where
  "match_all i r s = match_scan i r 0 s"

section \<open>Node's \<open>path\<close> module (POSIX)\<close>

text \<open>
  The hooks call \<open>path.extname\<close>, \<open>path.basename\<close>, \<open>path.dirname\<close> and \<open>path.join\<close>.
  They belong to Node, not to this repository; the definitions give the results of Node's
  POSIX implementation.
\<close>

definition strip_slashes :: "jsstring \<Rightarrow> jsstring" where
  "strip_slashes p = rev (dropWhile (\<lambda>c. c = slash) (rev p))"

text \<open>\<open>path.basename(p)\<close>: the last component, trailing slashes aside.\<close>

definition basename :: "jsstring \<Rightarrow> jsstring" where
  "basename p = rev (takeWhile (\<lambda>c. c \<noteq> slash) (rev (strip_slashes p)))"

text \<open>\<open>path.extname(p)\<close>: from the last dot of the last component on; empty when there
  is no dot, when the dot is the component's first code unit, and for \<open>..\<close>.\<close>

definition extname :: "jsstring \<Rightarrow> jsstring" where
  "extname p =
     (let b = basename p;
          e = rev (takeWhile (\<lambda>c. c \<noteq> dot) (rev b))
      in if dot \<notin> set b then []
         else if length b - length e - 1 = 0 then []
         else if b = [dot, dot] then []
         else dot # e)"

text \<open>\<open>path.basename(p, ext)\<close>: the last component without \<open>ext\<close>, when it ends with
  \<open>ext\<close> and is more than \<open>ext\<close>.\<close>

definition basename_ext :: "jsstring \<Rightarrow> jsstring \<Rightarrow> jsstring" where
  "basename_ext p ext =
     (let b = basename p
      in if ext \<noteq> [] \<and> length ext \<le> length p
         then (if ext = p then []
               else if endsWith b ext \<and> b \<noteq> ext then take (length b - length ext) b
               else b)
         else b)"

text \<open>\<open>path.dirname(p)\<close>: the scan runs from the end down to index 1, over the
  trailing slashes and the last component, and stops at the slash before it.\<close>

definition dirname :: "jsstring \<Rightarrow> jsstring" where
  "dirname p =
     (case p of
        [] \<Rightarrow> [dot]
      | c # t \<Rightarrow>
          (let hasRoot = (c = slash);
               r = dropWhile (\<lambda>c. c \<noteq> slash) (dropWhile (\<lambda>c. c = slash) (rev t));
               n = length r
           in if r = [] then (if hasRoot then [slash] else [dot])
              else if hasRoot \<and> n = 1 then [slash, slash]
              else take n p))"

text \<open>\<open>normalizeString\<close>: empty segments and \<open>.\<close> are dropped, \<open>..\<close> removes the
  segment before it, or stays when there is none and the path is relative. \<open>acc\<close> is the
  result so far, last segment first.\<close>

fun norm_segs :: "bool \<Rightarrow> jsstring list \<Rightarrow> jsstring list \<Rightarrow> jsstring list" where
  "norm_segs up acc [] = rev acc"
| "norm_segs up acc (s # ss) =
     (if s = [] \<or> s = [dot] then norm_segs up acc ss
      else if s = [dot, dot] then
        (case acc of
           [] \<Rightarrow> norm_segs up (if up then [[dot, dot]] else []) ss
         | t # ts \<Rightarrow>
             if t \<noteq> [dot, dot] then norm_segs up ts ss
             else norm_segs up (if up then [dot, dot] # acc else acc) ss)
      else norm_segs up (s # acc) ss)"

definition normalizeString :: "jsstring \<Rightarrow> bool \<Rightarrow> jsstring" where
  "normalizeString p allowAboveRoot = js_join slash (norm_segs allowAboveRoot [] (js_split slash p))"

definition normalize :: "jsstring \<Rightarrow> jsstring" where
  "normalize p =
     (if p = [] then [dot]
      else
        (let isAbsolute = (hd p = slash);
             trailingSeparator = (last p = slash);
             q = normalizeString p (\<not> isAbsolute)
         in if q = [] then (if isAbsolute then [slash] else if trailingSeparator then [dot, slash] else [dot])
            else (let q' = (if trailingSeparator then q @ [slash] else q)
                  in if isAbsolute then slash # q' else q')))"

text \<open>\<open>path.join(...args)\<close>: the non-empty arguments joined by slashes, normalised.\<close>

definition path_join :: "jsstring list \<Rightarrow> jsstring" where
  "path_join args =
     (let parts = filter (\<lambda>a. a \<noteq> []) args
      in if parts = [] then [dot] else normalize (js_join slash parts))"

section \<open>The world outside the hooks\<close>

text \<open>
  The file system as the hook sees it during one call: a path is missing, is a file with
  its text, or exists and cannot be read (a directory, a file without read permission);
  \<open>fs.readFileSync\<close> throws on the last, with the given message. \<open>execSync\<close> returns
  the output of a command that exits with 0 and throws otherwise; the thrown error has
  the captured \<open>stdout\<close>, when there is one. \<open>now\<close> is the time stamp of the log record.
\<close>

datatype fsentry = Missing | File jsstring | Unreadable jsstring

datatype exec_result = Exit0 jsstring | ExecError "jsstring option"

record env =
  fs :: "jsstring \<Rightarrow> fsentry"
  exec :: "jsstring \<Rightarrow> exec_result"
  now :: jsstring

definition existsSync :: "env \<Rightarrow> jsstring \<Rightarrow> bool" where
  "existsSync w p = (fs w p \<noteq> Missing)"

text \<open>A thrown error is \<open>Inl\<close> of its message.\<close>

definition readFileSync :: "env \<Rightarrow> jsstring \<Rightarrow> jsstring + jsstring" where
  "readFileSync w p =
     (case fs w p of
        File content \<Rightarrow> Inr content
      | Unreadable msg \<Rightarrow> Inl msg
      | Missing \<Rightarrow> Inl (js ''ENOENT: no such file or directory''))"

definition execSync :: "env \<Rightarrow> jsstring \<Rightarrow> exec_result" where
  "execSync w cmd = exec w cmd"

text \<open>The records written with \<open>console.error\<close>: the message of the \<open>catch\<close> in the
  file-change hook (path, error message) and the two summaries (time stamp and operation
  with the number of files and the lengths of the three arrays; time stamp and intent with
  the length of the prompt and the number of files).\<close>

datatype log_record =
    ErrorProcessing jsstring jsstring
  | ChangeSummary jsstring jsstring nat nat nat nat
  | PromptSummary jsstring jsstring nat nat

section \<open>plugin/dev-accelerator/hooks/on-file-change.js\<close>

text \<open>
  One constructor for each template literal that the hook pushes, with the values it
  interpolates; \<open>render\<close> is the text.
\<close>

datatype advisory =
    TestFileModified jsstring
  | NoTestFile jsstring jsstring
  | FileTooLong jsstring nat
  | ConsoleLogFound nat jsstring
  | TodoFound nat jsstring
  | EslintPassed jsstring
  | EslintIssues nat jsstring
  | LongFunction jsstring
  | PrintFound nat jsstring
  | PylintPassed jsstring
  | PylintIssues jsstring

definition check_mark :: jsstring where
  "check_mark = [0x2705]"

definition warning_sign :: jsstring where
  "warning_sign = [0x26A0, 0xFE0F]"

definition memo :: jsstring where
  "memo = [0xD83D, 0xDCDD]"

fun render :: "advisory \<Rightarrow> jsstring" where
  "render (TestFileModified b) = check_mark @ js '' Test file '' @ b @ js '' modified''"
| "render (NoTestFile b t) =
     warning_sign @ js ''  No test file found for '' @ b @ js ''. Consider creating '' @ t"
| "render (FileTooLong b n) =
     warning_sign @ js ''  '' @ b @ js '' is '' @ show_nat n @
     js '' lines. Consider breaking into smaller modules.''"
| "render (ConsoleLogFound n b) =
     warning_sign @ js ''  Found '' @ show_nat n @ js '' console.log statement(s) in '' @ b"
| "render (TodoFound n b) =
     memo @ js '' Found '' @ show_nat n @ js '' TODO/FIXME comment(s) in '' @ b"
| "render (EslintPassed b) = check_mark @ js '' ESLint: '' @ b @ js '' passed''"
| "render (EslintIssues n b) =
     warning_sign @ js ''  ESLint found '' @ show_nat n @ js '' issue(s) in '' @ b"
| "render (LongFunction b) = js ''Potentially long function detected in '' @ b"
| "render (PrintFound n b) = js ''Found '' @ show_nat n @ js '' print statement(s) in '' @ b"
| "render (PylintPassed b) = check_mark @ js '' Pylint: '' @ b @ js '' passed''"
| "render (PylintIssues b) = js ''Pylint found issues in '' @ b"

text \<open>The three arrays that the hook and its checks push to.\<close>

record arrays =
  notifications :: "advisory list"
  warnings :: "advisory list"
  errors :: "advisory list"

definition push_notification :: "advisory \<Rightarrow> arrays \<Rightarrow> arrays" where
  "push_notification m a = a\<lparr>notifications := notifications a @ [m]\<rparr>"

definition push_warning :: "advisory \<Rightarrow> arrays \<Rightarrow> arrays" where
  "push_warning m a = a\<lparr>warnings := warnings a @ [m]\<rparr>"

subsection \<open>The patterns\<close>

definition rx_console_log :: rx where
  "rx_console_log = lit ''console.log(''"

definition rx_todo :: rx where
  "rx_todo = Seq (lit ''//'') (Seq (Star Space) (Alt (lit ''TODO'') (lit ''FIXME'')))"

definition rx_error :: rx where
  "rx_error = lit ''error''"

definition rx_function :: rx where
  "rx_function =
     Seq (lit ''function'') (Seq (Plus Space) (Seq (Plus Word) (Seq (Star Space)
       (Seq (lit ''('') (Seq (Star (NotOne 0x29)) (Seq (lit '')'') (Seq (Star Space)
         (lit ''{''))))))))"

definition rx_open_brace :: rx where
  "rx_open_brace = lit ''{''"

definition rx_close_brace :: rx where
  "rx_close_brace = lit ''}''"

definition rx_print :: rx where
  "rx_print = lit ''print(''"

definition eslint_command :: "jsstring \<Rightarrow> jsstring" where
  "eslint_command filePath = js ''npx eslint --quiet '' @ [0x22] @ filePath @ [0x22]"

definition pylint_command :: "jsstring \<Rightarrow> jsstring" where
  "pylint_command filePath = js ''pylint --errors-only '' @ [0x22] @ filePath @ [0x22]"

subsection \<open>checkJavaScript\<close>

text \<open>The loop over the matched declarations; leaving it with \<open>break\<close> is returning
  without the recursive call.\<close>

fun scanFunctions :: "jsstring \<Rightarrow> jsstring \<Rightarrow> jsstring list \<Rightarrow> arrays \<Rightarrow> arrays" where
  "scanFunctions filePath content [] a = a"
| "scanFunctions filePath content (func # rest) a =
     (let funcStart = indexOf content func;
          funcBody = slice_from content funcStart;
          lines = js_join newline (take 100 (js_split newline funcBody));
          braceCount = int (length (match_all False rx_open_brace lines))
                     - int (length (match_all False rx_close_brace lines))
      in if 100 < length (js_split newline lines) \<and> braceCount = 0
         then push_warning (LongFunction (basename filePath)) a
         else scanFunctions filePath content rest a)"

text \<open>The \<open>try\<close> and \<open>catch\<close> around \<open>execSync\<close>: a notification when the command
  exits with 0, a warning when it fails with output in which \<open>error\<close> occurs, nothing
  otherwise.\<close>

definition runEslint :: "env \<Rightarrow> jsstring \<Rightarrow> arrays \<Rightarrow> arrays" where
  "runEslint w filePath a =
     (case execSync w (eslint_command filePath) of
        Exit0 _ \<Rightarrow> push_notification (EslintPassed (basename filePath)) a
      | ExecError None \<Rightarrow> a
      | ExecError (Some stdout) \<Rightarrow>
          (if 0 < length stdout
           then (let issueCount = length (match_all False rx_error stdout)
                 in if 0 < issueCount
                    then push_warning (EslintIssues issueCount (basename filePath)) a
                    else a)
           else a))"

text \<open>The function returns at once when the file is missing; \<open>readFileSync\<close> can
  throw, before anything is pushed.\<close>

definition checkJavaScript :: "env \<Rightarrow> jsstring \<Rightarrow> arrays \<Rightarrow> (jsstring + unit) \<times> arrays" where
  "checkJavaScript w filePath a =
     (if \<not> existsSync w filePath then (Inr (), a)
      else
        (case readFileSync w filePath of
           Inl err \<Rightarrow> (Inl err, a)
         | Inr content \<Rightarrow>
             (let consoleLogs = length (match_all False rx_console_log content);
                  a1 = (if 0 < consoleLogs
                        then push_warning (ConsoleLogFound consoleLogs (basename filePath)) a
                        else a);
                  todos = length (match_all False rx_todo content);
                  a2 = (if 0 < todos
                        then push_notification (TodoFound todos (basename filePath)) a1
                        else a1);
                  a3 = runEslint w filePath a2;
                  functions = match_all False rx_function content
              in (Inr (), scanFunctions filePath content functions a3))))"

subsection \<open>checkPython\<close>

definition runPylint :: "env \<Rightarrow> jsstring \<Rightarrow> arrays \<Rightarrow> arrays" where
  "runPylint w filePath a =
     (case execSync w (pylint_command filePath) of
        Exit0 _ \<Rightarrow> push_notification (PylintPassed (basename filePath)) a
      | ExecError None \<Rightarrow> a
      | ExecError (Some stdout) \<Rightarrow>
          (if 0 < length stdout then push_warning (PylintIssues (basename filePath)) a else a))"

definition checkPython :: "env \<Rightarrow> jsstring \<Rightarrow> arrays \<Rightarrow> (jsstring + unit) \<times> arrays" where
  "checkPython w filePath a =
     (if \<not> existsSync w filePath then (Inr (), a)
      else
        (case readFileSync w filePath of
           Inl err \<Rightarrow> (Inl err, a)
         | Inr content \<Rightarrow>
             (let prints = length (match_all False rx_print content);
                  a1 = (if 0 < prints
                        then push_warning (PrintFound prints (basename filePath)) a
                        else a)
              in (Inr (), runPylint w filePath a1))))"

subsection \<open>isTestFile, isSourceFile, getTestFilePath\<close>

definition isTestFile :: "jsstring \<Rightarrow> bool" where
  "isTestFile filePath =
     (let fileName = toLowerCase (basename filePath)
      in js_includes fileName (js ''.test.'') \<or>
         js_includes fileName (js ''.spec.'') \<or>
         js_includes fileName (js ''_test.'') \<or>
         startsWith fileName (js ''test_'') \<or>
         js_includes filePath (js ''/tests/'') \<or>
         js_includes filePath (js ''/test/'') \<or>
         js_includes filePath (js ''/__tests__/''))"

definition sourceExts :: "jsstring list" where
  "sourceExts = [js ''.js'', js ''.jsx'', js ''.ts'', js ''.tsx'', js ''.py'', js ''.java'',
                 js ''.go'', js ''.rs'', js ''.rb'', js ''.php'']"

definition isSourceFile :: "jsstring \<Rightarrow> bool" where
  "isSourceFile filePath =
     (let ext = extname filePath in ext \<in> set sourceExts \<and> \<not> isTestFile filePath)"

definition testPatterns :: "jsstring \<Rightarrow> jsstring list" where
  "testPatterns filePath =
     (let ext = extname filePath;
          baseName = basename_ext filePath ext;
          dirName = dirname filePath
      in [path_join [dirName, baseName @ js ''.test'' @ ext],
          path_join [dirName, baseName @ js ''.spec'' @ ext],
          path_join [dirName, js ''__tests__'', baseName @ js ''.test'' @ ext],
          path_join [dirName, js ''..'', js ''tests'', baseName @ js ''.test'' @ ext]])"

definition getTestFilePath :: "jsstring \<Rightarrow> jsstring" where
  "getTestFilePath filePath = hd (testPatterns filePath)"

subsection \<open>The exported handler\<close>

text \<open>The argument of the handler and the object it returns; a key of the result whose
  array is empty holds \<open>undefined\<close>, here \<open>None\<close>.\<close>

datatype changeType = Created | Modified | Deleted

record fileChange =
  filePath :: jsstring
  changeType :: changeType

record changeContext =
  files :: "fileChange list"
  operation :: jsstring

record feedback =
  out_notifications :: "advisory list option"
  out_warnings :: "advisory list option"
  out_errors :: "advisory list option"

text \<open>The statements of the \<open>try\<close> block after the two language checks: the
  notification for a test file, the warning for a source file without its test file, and
  the warning for a file of more than 600 lines, whose \<open>readFileSync\<close> can throw.\<close>

definition jsExts :: "jsstring list" where
  "jsExts = [js ''.js'', js ''.jsx'', js ''.ts'', js ''.tsx'']"

definition testFileCheck :: "jsstring \<Rightarrow> arrays \<Rightarrow> arrays" where
  "testFileCheck path a =
     (if isTestFile path then push_notification (TestFileModified (basename path)) a else a)"

definition missingTestCheck :: "env \<Rightarrow> jsstring \<Rightarrow> arrays \<Rightarrow> arrays" where
  "missingTestCheck w path a =
     (if \<not> isTestFile path \<and> isSourceFile path
      then (let testFilePath = getTestFilePath path
            in if \<not> existsSync w testFilePath
               then push_warning (NoTestFile (basename path) (basename testFilePath)) a
               else a)
      else a)"

definition sizeCheck :: "env \<Rightarrow> jsstring \<Rightarrow> arrays \<Rightarrow> (jsstring + unit) \<times> arrays" where
  "sizeCheck w path a =
     (if existsSync w path
      then (case readFileSync w path of
              Inl err \<Rightarrow> (Inl err, a)
            | Inr content \<Rightarrow>
                (let lines = length (js_split newline content)
                 in (Inr (), if 600 < lines
                             then push_warning (FileTooLong (basename path) lines) a
                             else a)))
      else (Inr (), a))"

text \<open>The body of the \<open>try\<close> block for one file: a throw ends it, with the arrays as
  they are at that moment.\<close>

definition tryBlock :: "env \<Rightarrow> jsstring \<Rightarrow> jsstring \<Rightarrow> arrays \<Rightarrow> (jsstring + unit) \<times> arrays" where
  "tryBlock w path ext a =
     (case (if ext \<in> set jsExts then checkJavaScript w path a else (Inr (), a)) of
        (Inl err, a1) \<Rightarrow> (Inl err, a1)
      | (Inr _, a1) \<Rightarrow>
          (case (if ext \<in> set [js ''.py''] then checkPython w path a1 else (Inr (), a1)) of
             (Inl err, a2) \<Rightarrow> (Inl err, a2)
           | (Inr _, a2) \<Rightarrow> sizeCheck w path (missingTestCheck w path (testFileCheck path a2))))"

text \<open>One round of the loop over the files: the \<open>try\<close> block and its \<open>catch\<close>, which
  writes to the log and goes on.\<close>

definition processFile ::
  "env \<Rightarrow> fileChange \<Rightarrow> arrays \<times> log_record list \<Rightarrow> arrays \<times> log_record list" where
  "processFile w file s =
     (let path = filePath file;
          ext = extname path
      in case tryBlock w path ext (fst s) of
           (Inr _, a) \<Rightarrow> (a, snd s)
         | (Inl msg, a) \<Rightarrow> (a, snd s @ [ErrorProcessing path msg]))"

fun processFiles ::
  "env \<Rightarrow> fileChange list \<Rightarrow> arrays \<times> log_record list \<Rightarrow> arrays \<times> log_record list" where
  "processFiles w [] s = s"
| "processFiles w (file # rest) s = processFiles w rest (processFile w file s)"

definition no_advisories :: arrays where
  "no_advisories = \<lparr>notifications = [], warnings = [], errors = []\<rparr>"

definition nonempty :: "'a list \<Rightarrow> 'a list option" where
  "nonempty xs = (if 0 < length xs then Some xs else None)"

text \<open>\<open>module.exports\<close> of on-file-change.js: the returned object and what was written to
  the log.\<close>

definition advise :: "env \<Rightarrow> changeContext \<Rightarrow> feedback \<times> log_record list" where
  "advise w ctx =
     (let s = processFiles w (files ctx) (no_advisories, []);
          a = fst s;
          summary = ChangeSummary (now w) (operation ctx) (length (files ctx))
                      (length (notifications a)) (length (warnings a)) (length (errors a))
      in (\<lparr>out_notifications = nonempty (notifications a),
           out_warnings = nonempty (warnings a),
           out_errors = nonempty (errors a)\<rparr>,
          snd s @ [summary]))"

section \<open>hooks/on-prompt-submit.js\<close>

text \<open>
  A value in the metadata object: \<open>undefined\<close>, a string, an array of strings, or
  anything else, which the hook never looks at. An object is a map from its own keys to
  their values; a key can be there with the value \<open>undefined\<close>.
\<close>

datatype 'v jsvalue = Undefined | Str jsstring | StrList "jsstring list" | Other 'v

record ('f, 'v) promptContext =
  prompt :: jsstring
  prompt_files :: "'f list"
  metadata :: "jsstring \<rightharpoonup> 'v jsvalue"

record 'v promptResult =
  out_prompt :: jsstring
  out_metadata :: "jsstring \<rightharpoonup> 'v jsvalue"

text \<open>The entries of \<open>patterns\<close>, in the order in which the object literal lists them;
  all three have the \<open>i\<close> flag.\<close>

definition patterns :: "(jsstring \<times> rx) list" where
  "patterns =
     [(js ''codeReview'',
         Alt (lit ''review'') (Alt (lit ''check'')
           (Seq (lit ''analyze'') (Seq (Star Dot) (lit ''code''))))),
      (js ''refactoring'', Alt (lit ''refactor'') (Alt (lit ''clean'') (lit ''improve''))),
      (js ''testing'', Alt (lit ''test'') (Alt (lit ''spec'') (lit ''coverage'')))]"

text \<open>The loop that detects the intent: the first entry whose pattern matches, and
  \<open>general\<close> when the entries run out.\<close>

fun detectIntent :: "(jsstring \<times> rx) list \<Rightarrow> jsstring \<Rightarrow> jsstring" where
  "detectIntent [] p = js ''general''"
| "detectIntent ((intent, pattern) # rest) p =
     (if rx_test True pattern p then intent else detectIntent rest p)"

definition bulb :: jsstring where
  "bulb = [0xD83D, 0xDCA1]"

text \<open>The \<open>switch\<close> over the detected intent.\<close>

definition suggestionsFor :: "jsstring \<Rightarrow> jsstring list" where
  "suggestionsFor detectedIntent =
     (if detectedIntent = js ''codeReview'' then
        [bulb @ js '' Tip: Use /smart-review command for structured code review'',
         bulb @ js '' Smart review checks for bugs, security issues, and best practices'']
      else if detectedIntent = js ''refactoring'' then
        [bulb @ js '' Tip: The safe-refactoring skill ensures you refactor safely with tests'',
         bulb @ js '' Remember: refactor in small steps, running tests after each change'']
      else if detectedIntent = js ''testing'' then
        [bulb @ js '' Tip: Use /gen-tests command to generate comprehensive test suites'',
         bulb @ js '' The test-generator subagent can autonomously create tests'']
      else [])"

text \<open>\<open>module.exports\<close> of on-prompt-submit.js: the returned object and the log record.
  The object literal spreads the incoming metadata and then sets \<open>detectedIntent\<close> and
  \<open>suggestions\<close>, the latter to \<open>undefined\<close> when there are no suggestions.\<close>

definition classify ::
  "env \<Rightarrow> ('f, 'v) promptContext \<Rightarrow> 'v promptResult \<times> log_record list" where
  "classify w ctx =
     (let detectedIntent = detectIntent patterns (prompt ctx);
          enhancedPrompt = prompt ctx;
          suggestions = suggestionsFor detectedIntent
      in (\<lparr>out_prompt = enhancedPrompt,
           out_metadata =
             (metadata ctx)
               (js ''detectedIntent'' \<mapsto> Str detectedIntent,
                js ''suggestions'' \<mapsto>
                  (if 0 < length suggestions then StrList suggestions else Undefined))\<rparr>,
          [PromptSummary (now w) detectedIntent (length (prompt ctx))
             (length (prompt_files ctx))]))"

section \<open>Notions used in the statements\<close>

text \<open>The arrays after more entries were pushed: \<open>ns\<close> to the notifications, \<open>ws\<close> to
  the warnings.\<close>

definition append_to :: "arrays \<Rightarrow> advisory list \<Rightarrow> advisory list \<Rightarrow> arrays" where
  "append_to a ns ws = a\<lparr>notifications := notifications a @ ns, warnings := warnings a @ ws\<rparr>"

text \<open>The entries that \<open>checkJavaScript\<close> and \<open>checkPython\<close> push for a file with the
  base name \<open>b\<close>, and the kinds of the other entries.\<close>

fun lang_entry :: "jsstring \<Rightarrow> advisory \<Rightarrow> bool" where
  "lang_entry b (ConsoleLogFound n c) = (c = b)"
| "lang_entry b (TodoFound n c) = (c = b)"
| "lang_entry b (EslintPassed c) = (c = b)"
| "lang_entry b (EslintIssues n c) = (c = b)"
| "lang_entry b (PrintFound n c) = (c = b)"
| "lang_entry b (PylintPassed c) = (c = b)"
| "lang_entry b (PylintIssues c) = (c = b)"
| "lang_entry b _ = False"

fun isTestFileModified :: "advisory \<Rightarrow> bool" where
  "isTestFileModified (TestFileModified b) = True"
| "isTestFileModified _ = False"

fun isNoTestFile :: "advisory \<Rightarrow> bool" where
  "isNoTestFile (NoTestFile b t) = True"
| "isNoTestFile _ = False"

fun isFileTooLong :: "advisory \<Rightarrow> bool" where
  "isFileTooLong (FileTooLong b n) = True"
| "isFileTooLong _ = False"

fun isLongFunction :: "advisory \<Rightarrow> bool" where
  "isLongFunction (LongFunction b) = True"
| "isLongFunction _ = False"

text \<open>What the test-file block, the missing-test block and the size block of the \<open>try\<close>
  body push for the path \<open>p\<close>, and the extensions that have a language check.\<close>

definition test_note :: "jsstring \<Rightarrow> advisory list" where
  "test_note p = (if isTestFile p then [TestFileModified (basename p)] else [])"

definition missing_warning :: "env \<Rightarrow> jsstring \<Rightarrow> advisory list" where
  "missing_warning w p =
     (if \<not> isTestFile p \<and> isSourceFile p \<and> fs w (getTestFilePath p) = Missing
      then [NoTestFile (basename p) (basename (getTestFilePath p))] else [])"

definition size_warning :: "env \<Rightarrow> jsstring \<Rightarrow> advisory list" where
  "size_warning w p =
     (case fs w p of
        File content \<Rightarrow>
          (if 600 < length (js_split newline content)
           then [FileTooLong (basename p) (length (js_split newline content))] else [])
      | _ \<Rightarrow> [])"

definition is_lang_ext :: "jsstring \<Rightarrow> bool" where
  "is_lang_ext ext \<longleftrightarrow> ext \<in> set jsExts \<or> ext = js ''.py''"

text \<open>The file names that an entry interpolates; whether reading a path throws; the
  error records of a batch, one for each file that cannot be read, in the order of the
  batch.\<close>

fun file_names :: "advisory \<Rightarrow> jsstring list" where
  "file_names (TestFileModified b) = [b]"
| "file_names (NoTestFile b t) = [b, t]"
| "file_names (FileTooLong b n) = [b]"
| "file_names (ConsoleLogFound n b) = [b]"
| "file_names (TodoFound n b) = [b]"
| "file_names (EslintPassed b) = [b]"
| "file_names (EslintIssues n b) = [b]"
| "file_names (LongFunction b) = [b]"
| "file_names (PrintFound n b) = [b]"
| "file_names (PylintPassed b) = [b]"
| "file_names (PylintIssues b) = [b]"

definition unreadable :: "env \<Rightarrow> jsstring \<Rightarrow> bool" where
  "unreadable w p = (case fs w p of Unreadable msg \<Rightarrow> True | _ \<Rightarrow> False)"


text \<open>A key of the result read as a list: \<open>undefined\<close> is the empty list.\<close>

definition listed :: "'a list option \<Rightarrow> 'a list" where
  "listed r = (case r of None \<Rightarrow> [] | Some xs \<Rightarrow> xs)"

text \<open>The classification of test files in the words of the specification: the base name
  contains \<open>.test.\<close>, \<open>.spec.\<close> or \<open>_test.\<close>, or starts with \<open>test_\<close>, or the path has a
  segment \<open>tests\<close>, \<open>test\<close> or \<open>__tests__\<close>.\<close>

definition spec_isTestFile :: "jsstring \<Rightarrow> bool" where
  "spec_isTestFile p =
     (let b = basename p
      in js_includes b (js ''.test.'') \<or> js_includes b (js ''.spec.'') \<or>
         js_includes b (js ''_test.'') \<or> startsWith b (js ''test_'') \<or>
         list_ex (\<lambda>seg. seg \<in> set [js ''tests'', js ''test'', js ''__tests__''])
           (js_split slash p))"

text \<open>The metadata in the words of the specification: the incoming metadata united with
  \<open>detectedIntent\<close> and, when there are suggestions, with \<open>suggestions\<close>; a new key
  wins.\<close>

definition spec_metadata ::
  "(jsstring \<rightharpoonup> 'v jsvalue) \<Rightarrow> jsstring \<Rightarrow> jsstring list \<Rightarrow> (jsstring \<rightharpoonup> 'v jsvalue)" where
  "spec_metadata m intent tips =
     (if tips \<noteq> [] then m(js ''detectedIntent'' \<mapsto> Str intent, js ''suggestions'' \<mapsto> StrList tips)
      else m(js ''detectedIntent'' \<mapsto> Str intent))"

subsection \<open>Concrete inputs\<close>

text \<open>A file system with the listed entries and nothing else, on a machine where neither
  lint tool can be started; a batch of modified files.\<close>

definition env_with :: "(jsstring \<times> fsentry) list \<Rightarrow> env" where
  "env_with entries =
     \<lparr>fs = (\<lambda>p. case map_of entries p of None \<Rightarrow> Missing | Some e \<Rightarrow> e),
      exec = (\<lambda>cmd. ExecError None),
      now = js ''2026-01-01T00:00:00.000Z''\<rparr>"

definition change :: "jsstring \<Rightarrow> fileChange" where
  "change p = \<lparr>filePath = p, changeType = Modified\<rparr>"

definition batch :: "jsstring list \<Rightarrow> changeContext" where
  "batch ps = \<lparr>files = map change ps, operation = js ''edit''\<rparr>"

text \<open>A JavaScript text of 101 lines: a declaration with balanced braces on the first
  line and 100 empty lines after it.\<close>

definition long_js :: jsstring where
  "long_js = js ''function f(){}'' @ replicate 100 newline"

text \<open>Texts of 601 and of 600 lines.\<close>

definition lines601 :: jsstring where
  "lines601 = replicate 600 newline"

definition lines600 :: jsstring where
  "lines600 = replicate 599 newline"

text \<open>Prompt events: the prompt of the specification's example, one that matches the
  first two patterns, one that matches none and carries a key of its own, and one that
  matches none and carries its own \<open>suggestions\<close>.\<close>

definition refactor_prompt :: "(unit, unit) promptContext" where
  "refactor_prompt =
     \<lparr>prompt = js ''please refactor this messy function'', prompt_files = [],
      metadata = Map.empty\<rparr>"

definition both_prompt :: "(unit, unit) promptContext" where
  "both_prompt =
     \<lparr>prompt = js ''Review and refactor'', prompt_files = [], metadata = Map.empty\<rparr>"

definition hello_prompt :: "(unit, nat) promptContext" where
  "hello_prompt =
     \<lparr>prompt = js ''hello'', prompt_files = [], metadata = [js ''a'' \<mapsto> Other 1]\<rparr>"

definition clash_prompt :: "(unit, nat) promptContext" where
  "clash_prompt =
     \<lparr>prompt = js ''hello'', prompt_files = [],
      metadata = [js ''suggestions'' \<mapsto> Str (js ''mine'')]\<rparr>"

section \<open>Splitting and joining\<close>

lemma js_split_not_Nil: "js_split c s \<noteq> []"
  by (induction s) (auto split: list.splits)

lemma js_split_pieces: "p \<in> set (js_split c s) \<Longrightarrow> c \<notin> set p"
proof (induction s arbitrary: p)
  case Nil
  then show ?case by simp
next
  case (Cons x xs)
  then show ?case
    by (cases "js_split c xs") (auto split: if_splits)
qed

lemma js_split_no_sep: "c \<notin> set p \<Longrightarrow> js_split c p = [p]"
  by (induction p) auto

lemma js_split_append_sep:
  "c \<notin> set p \<Longrightarrow> js_split c (p @ c # s) = p # js_split c s"
  by (induction p) auto

lemma js_split_join:
  "ps \<noteq> [] \<Longrightarrow> \<forall>p \<in> set ps. c \<notin> set p \<Longrightarrow> js_split c (js_join c ps) = ps"
proof (induction c ps rule: js_join.induct)
  case (1 c)
  then show ?case by simp
next
  case (2 c p)
  then show ?case by (simp add: js_split_no_sep)
next
  case (3 c p q ps)
  then show ?case by (simp add: js_split_append_sep)
qed

lemma length_js_split: "length (js_split c s) = Suc (length (filter (\<lambda>x. x = c) s))"
proof (induction s)
  case Nil
  then show ?case by simp
next
  case (Cons x xs)
  then show ?case by (cases "js_split c xs") auto
qed

lemma window_at_most_100:
  "length (js_split c (js_join c (take 100 (js_split c s)))) \<le> 100"
proof -
  let ?ps = "take 100 (js_split c s)"
  have "?ps \<noteq> []"
    using js_split_not_Nil [of c s] by (cases "js_split c s") simp_all
  moreover have "\<forall>p \<in> set ?ps. c \<notin> set p"
    using js_split_pieces by (meson in_set_takeD)
  ultimately have "js_split c (js_join c ?ps) = ?ps"
    by (rule js_split_join)
  then show ?thesis by simp
qed

lemma window_not_over_100:
  "\<not> 100 < length (js_split c (js_join c (take 100 (js_split c s))))"
  using window_at_most_100 [of c s] by simp

lemma scanFunctions_id: "scanFunctions p content funcs a = a"
  by (induction funcs) (simp_all add: Let_def window_not_over_100)

section \<open>What the checks push\<close>

lemma append_to_Nil [simp]: "append_to a [] [] = a"
  by (simp add: append_to_def)

lemma append_to_append_to [simp]:
  "append_to (append_to a ns ws) ns' ws' = append_to a (ns @ ns') (ws @ ws')"
  by (simp add: append_to_def)

lemma push_notification_eq: "push_notification m a = append_to a [m] []"
  by (simp add: push_notification_def append_to_def)

lemma push_warning_eq: "push_warning m a = append_to a [] [m]"
  by (simp add: push_warning_def append_to_def)

lemma append_to_sel [simp]:
  "notifications (append_to a ns ws) = notifications a @ ns"
  "warnings (append_to a ns ws) = warnings a @ ws"
  "errors (append_to a ns ws) = errors a"
  by (simp_all add: append_to_def)

lemma lang_entry_kind:
  "lang_entry b m \<Longrightarrow>
     \<not> isTestFileModified m \<and> \<not> isNoTestFile m \<and> \<not> isFileTooLong m \<and> \<not> isLongFunction m"
  by (cases m) simp_all

lemma runEslint_appends:
  "\<exists>ns ws. runEslint w p a = append_to a ns ws \<and> (\<forall>m \<in> set ns \<union> set ws. lang_entry (basename p) m)"
proof (cases "execSync w (eslint_command p)")
  case (Exit0 out)
  then have "runEslint w p a = append_to a [EslintPassed (basename p)] []"
    by (simp add: runEslint_def push_notification_eq)
  then show ?thesis by fastforce
next
  case (ExecError out)
  show ?thesis
  proof (cases "\<exists>s. out = Some s \<and> s \<noteq> [] \<and> 0 < length (match_all False rx_error s)")
    case True
    then obtain s where "out = Some s" "s \<noteq> []" "0 < length (match_all False rx_error s)"
      by blast
    with ExecError have "runEslint w p a =
        append_to a [] [EslintIssues (length (match_all False rx_error s)) (basename p)]"
      by (simp add: runEslint_def push_warning_eq Let_def)
    then show ?thesis by fastforce
  next
    case False
    with ExecError have "runEslint w p a = append_to a [] []"
      by (cases out) (auto simp: runEslint_def Let_def)
    then show ?thesis by fastforce
  qed
qed

lemma runPylint_appends:
  "\<exists>ns ws. runPylint w p a = append_to a ns ws \<and> (\<forall>m \<in> set ns \<union> set ws. lang_entry (basename p) m)"
proof (cases "execSync w (pylint_command p)")
  case (Exit0 out)
  then have "runPylint w p a = append_to a [PylintPassed (basename p)] []"
    by (simp add: runPylint_def push_notification_eq)
  then show ?thesis by fastforce
next
  case (ExecError out)
  show ?thesis
  proof (cases "\<exists>s. out = Some s \<and> s \<noteq> []")
    case True
    with ExecError have "runPylint w p a = append_to a [] [PylintIssues (basename p)]"
      by (auto simp: runPylint_def push_warning_eq)
    then show ?thesis by fastforce
  next
    case False
    with ExecError have "runPylint w p a = append_to a [] []"
      by (cases out) (auto simp: runPylint_def)
    then show ?thesis by fastforce
  qed
qed

lemma checkJavaScript_unreadable:
  "fs w p = Unreadable msg \<Longrightarrow> checkJavaScript w p a = (Inl msg, a)"
  by (simp add: checkJavaScript_def existsSync_def readFileSync_def)

lemma checkJavaScript_missing:
  "fs w p = Missing \<Longrightarrow> checkJavaScript w p a = (Inr (), a)"
  by (simp add: checkJavaScript_def existsSync_def)

lemma checkJavaScript_file:
  assumes "fs w p = File content"
  shows "\<exists>ns ws. checkJavaScript w p a = (Inr (), append_to a ns ws) \<and>
           (\<forall>m \<in> set ns \<union> set ws. lang_entry (basename p) m)"
proof -
  let ?c = "length (match_all False rx_console_log content)"
  let ?t = "length (match_all False rx_todo content)"
  let ?ws = "if 0 < ?c then [ConsoleLogFound ?c (basename p)] else []"
  let ?ns = "if 0 < ?t then [TodoFound ?t (basename p)] else []"
  obtain ns' ws' where e: "runEslint w p (append_to a ?ns ?ws) = append_to (append_to a ?ns ?ws) ns' ws'"
    and l: "\<forall>m \<in> set ns' \<union> set ws'. lang_entry (basename p) m"
    using runEslint_appends by blast
  have "checkJavaScript w p a = (Inr (), append_to a (?ns @ ns') (?ws @ ws'))"
    using assms e
    by (auto simp: checkJavaScript_def existsSync_def readFileSync_def Let_def
        scanFunctions_id push_warning_eq push_notification_eq split: if_splits)
  moreover have "\<forall>m \<in> set (?ns @ ns') \<union> set (?ws @ ws'). lang_entry (basename p) m"
    using l by auto
  ultimately show ?thesis by blast
qed

lemma checkPython_unreadable:
  "fs w p = Unreadable msg \<Longrightarrow> checkPython w p a = (Inl msg, a)"
  by (simp add: checkPython_def existsSync_def readFileSync_def)

lemma checkPython_missing:
  "fs w p = Missing \<Longrightarrow> checkPython w p a = (Inr (), a)"
  by (simp add: checkPython_def existsSync_def)

lemma checkPython_file:
  assumes "fs w p = File content"
  shows "\<exists>ns ws. checkPython w p a = (Inr (), append_to a ns ws) \<and>
           (\<forall>m \<in> set ns \<union> set ws. lang_entry (basename p) m)"
proof -
  let ?c = "length (match_all False rx_print content)"
  let ?ws = "if 0 < ?c then [PrintFound ?c (basename p)] else []"
  obtain ns' ws' where e: "runPylint w p (append_to a [] ?ws) = append_to (append_to a [] ?ws) ns' ws'"
    and l: "\<forall>m \<in> set ns' \<union> set ws'. lang_entry (basename p) m"
    using runPylint_appends by blast
  have "checkPython w p a = (Inr (), append_to a ns' (?ws @ ws'))"
    using assms e
    by (auto simp: checkPython_def existsSync_def readFileSync_def Let_def push_warning_eq
        split: if_splits)
  moreover have "\<forall>m \<in> set ns' \<union> set (?ws @ ws'). lang_entry (basename p) m"
    using l by auto
  ultimately show ?thesis by blast
qed

lemma testFileCheck_eq: "testFileCheck p a = append_to a (test_note p) []"
  by (simp add: testFileCheck_def test_note_def push_notification_eq)

lemma missingTestCheck_eq: "missingTestCheck w p a = append_to a [] (missing_warning w p)"
  by (simp add: missingTestCheck_def missing_warning_def push_warning_eq existsSync_def Let_def)

lemma sizeCheck_readable:
  "\<forall>msg. fs w p \<noteq> Unreadable msg \<Longrightarrow> sizeCheck w p a = (Inr (), append_to a [] (size_warning w p))"
  by (cases "fs w p")
    (simp_all add: sizeCheck_def size_warning_def existsSync_def readFileSync_def push_warning_eq
      Let_def)

lemma sizeCheck_unreadable:
  "fs w p = Unreadable msg \<Longrightarrow> sizeCheck w p a = (Inl msg, a)"
  by (simp add: sizeCheck_def existsSync_def readFileSync_def)

lemma checkJavaScript_readable:
  assumes "\<forall>msg. fs w p \<noteq> Unreadable msg"
  shows "\<exists>ns ws. checkJavaScript w p a = (Inr (), append_to a ns ws) \<and>
           (\<forall>m \<in> set ns \<union> set ws. lang_entry (basename p) m)"
proof (cases "fs w p")
  case Missing
  then have "checkJavaScript w p a = (Inr (), append_to a [] [])"
    by (simp add: checkJavaScript_missing)
  then show ?thesis by fastforce
next
  case (File content)
  then show ?thesis by (rule checkJavaScript_file)
next
  case (Unreadable msg)
  with assms show ?thesis by simp
qed

lemma checkPython_readable:
  assumes "\<forall>msg. fs w p \<noteq> Unreadable msg"
  shows "\<exists>ns ws. checkPython w p a = (Inr (), append_to a ns ws) \<and>
           (\<forall>m \<in> set ns \<union> set ws. lang_entry (basename p) m)"
proof (cases "fs w p")
  case Missing
  then have "checkPython w p a = (Inr (), append_to a [] [])"
    by (simp add: checkPython_missing)
  then show ?thesis by fastforce
next
  case (File content)
  then show ?thesis by (rule checkPython_file)
next
  case (Unreadable msg)
  with assms show ?thesis by simp
qed

lemma py_not_js: "js ''.py'' \<notin> set jsExts"
  by (simp add: jsExts_def js_def)

lemma tryBlock_readable:
  assumes r: "\<forall>msg. fs w p \<noteq> Unreadable msg"
  shows "\<exists>ns ws. tryBlock w p ext a =
            (Inr (), append_to a (ns @ test_note p) (ws @ missing_warning w p @ size_warning w p)) \<and>
           (\<forall>m \<in> set ns \<union> set ws. lang_entry (basename p) m)"
proof -
  have rest: "sizeCheck w p (missingTestCheck w p (testFileCheck p (append_to a ns ws))) =
      (Inr (), append_to a (ns @ test_note p) (ws @ missing_warning w p @ size_warning w p))"
    for ns ws
    by (simp add: testFileCheck_eq missingTestCheck_eq sizeCheck_readable [OF r])
  consider (js) "ext \<in> set jsExts" | (py) "ext = js ''.py''" | (other) "\<not> is_lang_ext ext"
    by (auto simp: is_lang_ext_def)
  then show ?thesis
  proof cases
    case js
    then have npy: "ext \<noteq> js ''.py''" using py_not_js by auto
    obtain ns ws where c: "checkJavaScript w p a = (Inr (), append_to a ns ws)"
      and l: "\<forall>m \<in> set ns \<union> set ws. lang_entry (basename p) m"
      using checkJavaScript_readable [OF r] by blast
    have "tryBlock w p ext a =
        (Inr (), append_to a (ns @ test_note p) (ws @ missing_warning w p @ size_warning w p))"
      using js npy c by (simp add: tryBlock_def rest)
    with l show ?thesis by blast
  next
    case py
    then have njs: "ext \<notin> set jsExts" using py_not_js by auto
    obtain ns ws where c: "checkPython w p a = (Inr (), append_to a ns ws)"
      and l: "\<forall>m \<in> set ns \<union> set ws. lang_entry (basename p) m"
      using checkPython_readable [OF r] by blast
    have "tryBlock w p ext a =
        (Inr (), append_to a (ns @ test_note p) (ws @ missing_warning w p @ size_warning w p))"
      using py njs c by (simp add: tryBlock_def rest)
    with l show ?thesis by blast
  next
    case other
    then have "tryBlock w p ext a =
        (Inr (), append_to a ([] @ test_note p) ([] @ missing_warning w p @ size_warning w p))"
      using rest [of "[]" "[]"] by (simp add: tryBlock_def is_lang_ext_def)
    then show ?thesis by fastforce
  qed
qed

lemma tryBlock_unreadable:
  assumes u: "fs w p = Unreadable msg"
  shows "tryBlock w p ext a =
           (Inl msg, if is_lang_ext ext then a
                     else append_to a (test_note p) (missing_warning w p))"
proof -
  consider (js) "ext \<in> set jsExts" | (py) "ext = js ''.py''" | (other) "\<not> is_lang_ext ext"
    by (auto simp: is_lang_ext_def)
  then show ?thesis
  proof cases
    case js
    then show ?thesis
      by (simp add: tryBlock_def checkJavaScript_unreadable [OF u] is_lang_ext_def)
  next
    case py
    then have njs: "ext \<notin> set jsExts" using py_not_js by auto
    with py show ?thesis
      by (simp add: tryBlock_def checkPython_unreadable [OF u] is_lang_ext_def)
  next
    case other
    then show ?thesis
      by (simp add: tryBlock_def is_lang_ext_def testFileCheck_eq missingTestCheck_eq
          sizeCheck_unreadable [OF u])
  qed
qed

lemma processFile_readable:
  assumes "\<forall>msg. fs w (filePath file) \<noteq> Unreadable msg"
  shows "\<exists>ns ws. processFile w file (a, lg) =
            (append_to a (ns @ test_note (filePath file))
               (ws @ missing_warning w (filePath file) @ size_warning w (filePath file)), lg) \<and>
           (\<forall>m \<in> set ns \<union> set ws. lang_entry (basename (filePath file)) m)"
proof -
  obtain ns ws where
    t: "tryBlock w (filePath file) (extname (filePath file)) a =
          (Inr (), append_to a (ns @ test_note (filePath file))
             (ws @ missing_warning w (filePath file) @ size_warning w (filePath file)))"
    and l: "\<forall>m \<in> set ns \<union> set ws. lang_entry (basename (filePath file)) m"
    using tryBlock_readable [OF assms] by blast
  from t have "processFile w file (a, lg) =
      (append_to a (ns @ test_note (filePath file))
         (ws @ missing_warning w (filePath file) @ size_warning w (filePath file)), lg)"
    by (simp add: processFile_def Let_def)
  with l show ?thesis by blast
qed

lemma processFile_unreadable:
  assumes "fs w (filePath file) = Unreadable msg"
  shows "processFile w file (a, lg) =
           (if is_lang_ext (extname (filePath file)) then a
            else append_to a (test_note (filePath file)) (missing_warning w (filePath file)),
            lg @ [ErrorProcessing (filePath file) msg])"
  by (simp add: processFile_def Let_def tryBlock_unreadable [OF assms])

lemma processFile_appends:
  "\<exists>ns ws. fst (processFile w file (a, lg)) = append_to a ns ws"
proof (cases "\<exists>msg. fs w (filePath file) = Unreadable msg")
  case True
  then obtain msg where "fs w (filePath file) = Unreadable msg" by blast
  from processFile_unreadable [OF this, of a lg] show ?thesis
    by (metis append_to_Nil fst_conv)
next
  case False
  then have "\<forall>msg. fs w (filePath file) \<noteq> Unreadable msg" by simp
  from processFile_readable [OF this, of a lg] show ?thesis
    by (metis fst_conv)
qed

lemma processFile_errors: "errors (fst (processFile w file s)) = errors (fst s)"
proof -
  obtain a lg where s: "s = (a, lg)" by (cases s)
  obtain ns ws where "fst (processFile w file (a, lg)) = append_to a ns ws"
    using processFile_appends by blast
  with s show ?thesis by simp
qed

lemma processFiles_errors: "errors (fst (processFiles w fl s)) = errors (fst s)"
  by (induction fl arbitrary: s) (simp_all add: processFile_errors)

lemma processFiles_append:
  "processFiles w (pre @ post) s = processFiles w post (processFiles w pre s)"
  by (induction pre arbitrary: s) simp_all

text \<open>The arrays only grow: what one round pushes is still there, at the same place, when
  the loop is over.\<close>

lemma processFiles_grows:
  "\<exists>ns ws. fst (processFiles w fl (a, lg)) = append_to a ns ws"
proof (induction fl arbitrary: a lg)
  case Nil
  have "fst (processFiles w [] (a, lg)) = append_to a [] []" by simp
  then show ?case by blast
next
  case (Cons f fl)
  obtain a' lg' where p: "processFile w f (a, lg) = (a', lg')"
    by (cases "processFile w f (a, lg)")
  obtain ns ws where a': "a' = append_to a ns ws"
    using processFile_appends [of w f a lg] p by auto
  obtain ns' ws' where "fst (processFiles w fl (a', lg')) = append_to a' ns' ws'"
    using Cons.IH by blast
  with p a' have "fst (processFiles w (f # fl) (a, lg)) = append_to a (ns @ ns') (ws @ ws')"
    by simp
  then show ?case by blast
qed

section \<open>The long-function check\<close>

lemma test_note_kind: "m \<in> set (test_note p) \<Longrightarrow> \<not> isLongFunction m"
  by (auto simp: test_note_def split: if_splits)

lemma missing_warning_kind: "m \<in> set (missing_warning w p) \<Longrightarrow> \<not> isLongFunction m"
  by (auto simp: missing_warning_def split: if_splits)

lemma size_warning_kind: "m \<in> set (size_warning w p) \<Longrightarrow> \<not> isLongFunction m"
  by (auto simp: size_warning_def split: if_splits fsentry.splits)

lemma processFile_no_long_function:
  "\<exists>ns ws. fst (processFile w file (a, lg)) = append_to a ns ws \<and>
     (\<forall>m \<in> set ws. \<not> isLongFunction m)"
proof (cases "\<exists>msg. fs w (filePath file) = Unreadable msg")
  case True
  then obtain msg where u: "fs w (filePath file) = Unreadable msg" by blast
  show ?thesis
  proof (cases "is_lang_ext (extname (filePath file))")
    case True
    with processFile_unreadable [OF u, of a lg]
    have "fst (processFile w file (a, lg)) = append_to a [] []" by simp
    then show ?thesis by fastforce
  next
    case False
    with processFile_unreadable [OF u, of a lg]
    have "fst (processFile w file (a, lg)) =
        append_to a (test_note (filePath file)) (missing_warning w (filePath file))" by simp
    then show ?thesis using missing_warning_kind by blast
  qed
next
  case False
  then have "\<forall>msg. fs w (filePath file) \<noteq> Unreadable msg" by simp
  from processFile_readable [OF this, of a lg]
  obtain ns ws where e: "fst (processFile w file (a, lg)) =
      append_to a (ns @ test_note (filePath file))
        (ws @ missing_warning w (filePath file) @ size_warning w (filePath file))"
    and l: "\<forall>m \<in> set ns \<union> set ws. lang_entry (basename (filePath file)) m"
    by (metis fst_conv)
  have "\<forall>m \<in> set (ws @ missing_warning w (filePath file) @ size_warning w (filePath file)).
      \<not> isLongFunction m"
    using l lang_entry_kind missing_warning_kind size_warning_kind by auto
  with e show ?thesis by blast
qed

lemma processFiles_no_long_function:
  "\<forall>m \<in> set (warnings (fst s)). \<not> isLongFunction m \<Longrightarrow>
   \<forall>m \<in> set (warnings (fst (processFiles w fl s))). \<not> isLongFunction m"
proof (induction fl arbitrary: s)
  case Nil
  then show ?case by simp
next
  case (Cons f fl)
  obtain a lg where s: "s = (a, lg)" by (cases s)
  obtain ns ws where e: "fst (processFile w f (a, lg)) = append_to a ns ws"
    and k: "\<forall>m \<in> set ws. \<not> isLongFunction m"
    using processFile_no_long_function by blast
  have "\<forall>m \<in> set (warnings (fst (processFile w f s))). \<not> isLongFunction m"
    using Cons.prems s e k by auto
  from Cons.IH [OF this] show ?case by simp
qed

lemma advise_never_long_function:
  "out_warnings (fst (advise w ctx)) = Some ws \<Longrightarrow> \<forall>m \<in> set ws. \<not> isLongFunction m"
proof -
  assume a: "out_warnings (fst (advise w ctx)) = Some ws"
  have "\<forall>m \<in> set (warnings (fst (processFiles w (files ctx) (no_advisories, [])))).
      \<not> isLongFunction m"
    by (rule processFiles_no_long_function) (simp add: no_advisories_def)
  moreover from a have "ws = warnings (fst (processFiles w (files ctx) (no_advisories, [])))"
    by (simp add: advise_def Let_def nonempty_def split: if_splits)
  ultimately show ?thesis by simp
qed

lemma long_js_functions: "match_all False rx_function long_js = [js ''function f(){'']"
  by code_simp

lemma long_js_window:
  "length (take 100 (js_split newline
      (slice_from long_js (indexOf long_js (js ''function f(){''))))) = 100"
  by code_simp

lemma long_js_braces:
  "length (match_all False rx_open_brace (js_join newline (take 100 (js_split newline
      (slice_from long_js (indexOf long_js (js ''function f(){'')))))))
   = length (match_all False rx_close_brace (js_join newline (take 100 (js_split newline
      (slice_from long_js (indexOf long_js (js ''function f(){'')))))))"
  by code_simp

lemma long_js_advise:
  "fst (advise (env_with [(js ''a.js'', File long_js)]) (batch [js ''a.js''])) =
     \<lparr>out_notifications = None,
      out_warnings = Some [NoTestFile (js ''a.js'') (js ''a.test.js'')],
      out_errors = None\<rparr>"
  by code_simp

text \<open>
  C1. The specification has the long-function check warn once when the window of up to
  100 lines after the first matched declaration has as many opening as closing braces and
  is the full 100 lines. The code asks for more than 100 lines in a window that was cut to
  100, so the warning is never pushed (\<open>advise_never_long_function\<close>). Here at
  \<open>a.js\<close>, an existing file of 101 lines whose first line is \<open>function f(){}\<close>: the
  pattern matches once, the window has 100 lines, the braces balance, and the only warning
  is the one about the missing test file.
\<close>

theorem long_function_balanced_window_not_reported:
  "existsSync (env_with [(js ''a.js'', File long_js)]) (js ''a.js'') \<and>
   extname (js ''a.js'') \<in> set jsExts \<and>
   match_all False rx_function long_js = [js ''function f(){''] \<and>
   length (take 100 (js_split newline
      (slice_from long_js (indexOf long_js (js ''function f(){''))))) = 100 \<and>
   length (match_all False rx_open_brace (js_join newline (take 100 (js_split newline
      (slice_from long_js (indexOf long_js (js ''function f(){'')))))))
   = length (match_all False rx_close_brace (js_join newline (take 100 (js_split newline
      (slice_from long_js (indexOf long_js (js ''function f(){''))))))) \<and>
   fst (advise (env_with [(js ''a.js'', File long_js)]) (batch [js ''a.js''])) =
     \<lparr>out_notifications = None,
      out_warnings = Some [NoTestFile (js ''a.js'') (js ''a.test.js'')],
      out_errors = None\<rparr>"
proof -
  have "existsSync (env_with [(js ''a.js'', File long_js)]) (js ''a.js'')"
    by (simp add: existsSync_def env_with_def)
  moreover have "extname (js ''a.js'') \<in> set jsExts"
    by code_simp
  ultimately show ?thesis
    using long_js_functions long_js_window long_js_braces long_js_advise by blast
qed

section \<open>The batch as a whole\<close>

text \<open>
  C3. For every change event without files, \<open>advise\<close> returns a result whose
  notifications, warnings and errors are all absent (and writes the one summary record).
\<close>

theorem advise_empty_batch:
  "advise w \<lparr>files = [], operation = op\<rparr> =
     (\<lparr>out_notifications = None, out_warnings = None, out_errors = None\<rparr>,
      [ChangeSummary (now w) op 0 0 0 0])"
  by (simp add: advise_def no_advisories_def nonempty_def)

text \<open>
  C10. For every change event and every state of the file system and the tools, the errors
  of the result of \<open>advise\<close> are absent: nothing is ever pushed to that array.
\<close>

theorem advise_errors_absent: "out_errors (fst (advise w ctx)) = None"
proof -
  have "errors (fst (processFiles w (files ctx) (no_advisories, []))) = []"
    by (simp add: processFiles_errors no_advisories_def)
  then show ?thesis
    by (simp add: advise_def Let_def nonempty_def)
qed

section \<open>Rounds of the loop and the result\<close>

text \<open>
  What \<open>advise\<close> returns for a batch, read against what it returns for the files before
  one file of the batch: when the round for that file pushes \<open>ns\<close> and \<open>ws\<close>, the result
  for the batch cut after the file is the result for the files before it with \<open>ns\<close> and
  \<open>ws\<close> at the end, and the result for the whole batch has them at that place.
\<close>

lemma listed_nonempty: "listed (nonempty xs) = xs"
  by (simp add: listed_def nonempty_def)

lemma advise_listed:
  "listed (out_notifications (fst (advise w ctx))) =
     notifications (fst (processFiles w (files ctx) (no_advisories, [])))"
  "listed (out_warnings (fst (advise w ctx))) =
     warnings (fst (processFiles w (files ctx) (no_advisories, [])))"
  by (simp_all add: advise_def Let_def listed_nonempty)

lemma advise_no_files:
  "listed (out_notifications (fst (advise w (ctx\<lparr>files := []\<rparr>)))) = []"
  "listed (out_warnings (fst (advise w (ctx\<lparr>files := []\<rparr>)))) = []"
  by (simp_all add: advise_listed no_advisories_def)

lemma advise_rounds:
  assumes f: "files ctx = pre @ file # post"
    and r: "fst (processFile w file (processFiles w pre (no_advisories, []))) =
              append_to (fst (processFiles w pre (no_advisories, []))) ns ws"
  shows "\<exists>ns' ws'.
     listed (out_notifications (fst (advise w (ctx\<lparr>files := pre @ [file]\<rparr>)))) =
       listed (out_notifications (fst (advise w (ctx\<lparr>files := pre\<rparr>)))) @ ns \<and>
     listed (out_warnings (fst (advise w (ctx\<lparr>files := pre @ [file]\<rparr>)))) =
       listed (out_warnings (fst (advise w (ctx\<lparr>files := pre\<rparr>)))) @ ws \<and>
     listed (out_notifications (fst (advise w ctx))) =
       listed (out_notifications (fst (advise w (ctx\<lparr>files := pre\<rparr>)))) @ ns @ ns' \<and>
     listed (out_warnings (fst (advise w ctx))) =
       listed (out_warnings (fst (advise w (ctx\<lparr>files := pre\<rparr>)))) @ ws @ ws'"
proof -
  let ?s = "processFiles w pre (no_advisories, [])"
  obtain a' lg' where p: "processFile w file ?s = (a', lg')"
    by (cases "processFile w file ?s")
  with r have a': "a' = append_to (fst ?s) ns ws" by simp
  obtain ns' ws' where g: "fst (processFiles w post (a', lg')) = append_to a' ns' ws'"
    using processFiles_grows by blast
  have one: "processFiles w (pre @ [file]) (no_advisories, []) = (a', lg')"
    using p by (simp add: processFiles_append)
  have "processFiles w (files ctx) (no_advisories, []) = processFiles w post (a', lg')"
    using p by (simp add: f processFiles_append)
  then have all: "fst (processFiles w (files ctx) (no_advisories, [])) =
      append_to (fst ?s) (ns @ ns') (ws @ ws')"
    using g a' by simp
  have "listed (out_notifications (fst (advise w (ctx\<lparr>files := pre @ [file]\<rparr>)))) =
       listed (out_notifications (fst (advise w (ctx\<lparr>files := pre\<rparr>)))) @ ns"
    by (simp add: advise_listed one a')
  moreover have "listed (out_warnings (fst (advise w (ctx\<lparr>files := pre @ [file]\<rparr>)))) =
       listed (out_warnings (fst (advise w (ctx\<lparr>files := pre\<rparr>)))) @ ws"
    by (simp add: advise_listed one a')
  moreover have "listed (out_notifications (fst (advise w ctx))) =
       listed (out_notifications (fst (advise w (ctx\<lparr>files := pre\<rparr>)))) @ ns @ ns'"
    by (simp add: advise_listed all)
  moreover have "listed (out_warnings (fst (advise w ctx))) =
       listed (out_warnings (fst (advise w (ctx\<lparr>files := pre\<rparr>)))) @ ws @ ws'"
    by (simp add: advise_listed all)
  ultimately show ?thesis by blast
qed

lemma batch_single: "files (batch [p]) = [] @ change p # []"
  by (simp add: batch_def)

section \<open>The prompt hook\<close>

lemma detectIntent_first:
  "k < length ps \<Longrightarrow> rx_test True (snd (ps ! k)) p \<Longrightarrow>
   \<forall>j < k. \<not> rx_test True (snd (ps ! j)) p \<Longrightarrow> detectIntent ps p = fst (ps ! k)"
proof (induction ps arbitrary: k)
  case Nil
  then show ?case by simp
next
  case (Cons e ps)
  obtain i r where e: "e = (i, r)" by (cases e)
  show ?case
  proof (cases k)
    case 0
    with Cons.prems e show ?thesis by simp
  next
    case (Suc k')
    with Cons.prems have "\<not> rx_test True (snd ((e # ps) ! 0)) p" by blast
    with e have n: "\<not> rx_test True r p" by simp
    have "detectIntent ps p = fst (ps ! k')"
    proof (rule Cons.IH)
      show "k' < length ps" using Cons.prems(1) Suc by simp
      show "rx_test True (snd (ps ! k')) p" using Cons.prems(2) Suc by simp
      show "\<forall>j<k'. \<not> rx_test True (snd (ps ! j)) p"
      proof (intro allI impI)
        fix j assume "j < k'"
        then have "Suc j < k" using Suc by simp
        with Cons.prems(3) have "\<not> rx_test True (snd ((e # ps) ! Suc j)) p" by blast
        then show "\<not> rx_test True (snd (ps ! j)) p" by simp
      qed
    qed
    with n e Suc show ?thesis by simp
  qed
qed

lemma detectIntent_none:
  "list_all (\<lambda>e. \<not> rx_test True (snd e) p) ps \<Longrightarrow> detectIntent ps p = js ''general''"
  by (induction ps) auto

lemma patterns_names: "map fst patterns = [js ''codeReview'', js ''refactoring'', js ''testing'']"
  by (simp add: patterns_def)

lemma classify_detectedIntent:
  "out_metadata (fst (classify w ctx)) (js ''detectedIntent'') =
     Some (Str (detectIntent patterns (prompt ctx)))"
proof -
  have "js ''detectedIntent'' \<noteq> js ''suggestions''" by (simp add: js_def)
  then show ?thesis by (simp add: classify_def Let_def)
qed

lemma classify_suggestions:
  "out_metadata (fst (classify w ctx)) (js ''suggestions'') =
     Some (if suggestionsFor (detectIntent patterns (prompt ctx)) \<noteq> []
           then StrList (suggestionsFor (detectIntent patterns (prompt ctx))) else Undefined)"
  by (simp add: classify_def Let_def)

lemma classify_other_keys:
  "key \<noteq> js ''detectedIntent'' \<Longrightarrow> key \<noteq> js ''suggestions'' \<Longrightarrow>
   out_metadata (fst (classify w ctx)) key = metadata ctx key"
  by (simp add: classify_def Let_def)

lemma refactor_tests:
  "\<not> rx_test True (snd (patterns ! 0)) (js ''please refactor this messy function'')"
  "rx_test True (snd (patterns ! 1)) (js ''please refactor this messy function'')"
  by code_simp+

lemma both_tests:
  "rx_test True (snd (patterns ! 0)) (js ''Review and refactor'')"
  "rx_test True (snd (patterns ! 1)) (js ''Review and refactor'')"
  by code_simp+

lemma hello_tests:
  "list_all (\<lambda>e. \<not> rx_test True (snd e) (js ''hello'')) patterns"
  "list_all (\<lambda>e. \<not> rx_test True (snd e) (js '''')) patterns"
  by code_simp+

lemma suggestionsFor_refactoring:
  "suggestionsFor (js ''refactoring'') =
     [bulb @ js '' Tip: The safe-refactoring skill ensures you refactor safely with tests'',
      bulb @ js '' Remember: refactor in small steps, running tests after each change'']"
  by (simp add: suggestionsFor_def js_def)

lemma suggestionsFor_general: "suggestionsFor (js ''general'') = []"
  by (simp add: suggestionsFor_def js_def)

text \<open>
  C2. For every prompt, \<open>classify\<close> reports the first intent, in the order codeReview,
  refactoring, testing, whose pattern matches: the entry at \<open>k\<close> when it matches and no
  earlier one does. A prompt matching both the codeReview and the refactoring pattern is
  reported as codeReview, and the prompt "please refactor this messy function" as
  refactoring, with the two suggestions of that intent.
\<close>

theorem classify_first_match:
  "map fst patterns = [js ''codeReview'', js ''refactoring'', js ''testing''] \<and>
   (\<forall>k < length patterns.
      rx_test True (snd (patterns ! k)) (prompt ctx) \<longrightarrow>
      (\<forall>j < k. \<not> rx_test True (snd (patterns ! j)) (prompt ctx)) \<longrightarrow>
      out_metadata (fst (classify w ctx)) (js ''detectedIntent'') = Some (Str (fst (patterns ! k)))) \<and>
   (rx_test True (snd (patterns ! 0)) (prompt ctx) \<longrightarrow>
    rx_test True (snd (patterns ! 1)) (prompt ctx) \<longrightarrow>
      out_metadata (fst (classify w ctx)) (js ''detectedIntent'') = Some (Str (js ''codeReview''))) \<and>
   (prompt ctx = js ''please refactor this messy function'' \<longrightarrow>
      out_metadata (fst (classify w ctx)) (js ''detectedIntent'') = Some (Str (js ''refactoring'')) \<and>
      out_metadata (fst (classify w ctx)) (js ''suggestions'') =
        Some (StrList
          [bulb @ js '' Tip: The safe-refactoring skill ensures you refactor safely with tests'',
           bulb @ js '' Remember: refactor in small steps, running tests after each change'']))"
proof (intro conjI allI impI)
  show "map fst patterns = [js ''codeReview'', js ''refactoring'', js ''testing'']"
    by (rule patterns_names)
next
  fix k
  assume "k < length patterns" "rx_test True (snd (patterns ! k)) (prompt ctx)"
    "\<forall>j < k. \<not> rx_test True (snd (patterns ! j)) (prompt ctx)"
  then have "detectIntent patterns (prompt ctx) = fst (patterns ! k)"
    by (rule detectIntent_first)
  then show "out_metadata (fst (classify w ctx)) (js ''detectedIntent'') = Some (Str (fst (patterns ! k)))"
    by (simp add: classify_detectedIntent)
next
  assume "rx_test True (snd (patterns ! 0)) (prompt ctx)"
  then have "detectIntent patterns (prompt ctx) = js ''codeReview''"
    by (simp add: patterns_def)
  then show "out_metadata (fst (classify w ctx)) (js ''detectedIntent'') = Some (Str (js ''codeReview''))"
    by (simp add: classify_detectedIntent)
next
  assume p: "prompt ctx = js ''please refactor this messy function''"
  have "1 < length patterns" by (simp add: patterns_def)
  moreover have "rx_test True (snd (patterns ! 1)) (prompt ctx)"
    using refactor_tests(2) p by simp
  moreover have "\<forall>j < 1. \<not> rx_test True (snd (patterns ! j)) (prompt ctx)"
    using refactor_tests(1) p by simp
  ultimately have "detectIntent patterns (prompt ctx) = fst (patterns ! 1)"
    by (rule detectIntent_first)
  then have d: "detectIntent patterns (prompt ctx) = js ''refactoring''"
    by (simp add: patterns_def)
  then show "out_metadata (fst (classify w ctx)) (js ''detectedIntent'') = Some (Str (js ''refactoring''))"
    by (simp add: classify_detectedIntent)
  show "out_metadata (fst (classify w ctx)) (js ''suggestions'') =
        Some (StrList
          [bulb @ js '' Tip: The safe-refactoring skill ensures you refactor safely with tests'',
           bulb @ js '' Remember: refactor in small steps, running tests after each change''])"
    by (simp add: classify_suggestions d suggestionsFor_refactoring)
qed

theorem classify_first_match_witness:
  "1 < length patterns \<and>
   rx_test True (snd (patterns ! 1)) (prompt refactor_prompt) \<and>
   \<not> rx_test True (snd (patterns ! 0)) (prompt refactor_prompt) \<and>
   out_metadata (fst (classify (env_with []) refactor_prompt)) (js ''detectedIntent'') =
     Some (Str (js ''refactoring'')) \<and>
   out_metadata (fst (classify (env_with []) refactor_prompt)) (js ''suggestions'') =
     Some (StrList
       [bulb @ js '' Tip: The safe-refactoring skill ensures you refactor safely with tests'',
        bulb @ js '' Remember: refactor in small steps, running tests after each change'']) \<and>
   rx_test True (snd (patterns ! 0)) (prompt both_prompt) \<and>
   rx_test True (snd (patterns ! 1)) (prompt both_prompt) \<and>
   out_metadata (fst (classify (env_with []) both_prompt)) (js ''detectedIntent'') =
     Some (Str (js ''codeReview''))"
proof -
  have l: "1 < length patterns" by (simp add: patterns_def)
  have r: "prompt refactor_prompt = js ''please refactor this messy function''"
    by (simp add: refactor_prompt_def)
  have b: "prompt both_prompt = js ''Review and refactor''"
    by (simp add: both_prompt_def)
  show ?thesis
    using classify_first_match [of refactor_prompt "env_with []"]
      classify_first_match [of both_prompt "env_with []"]
      refactor_tests both_tests l
    by (simp add: r b)
qed

lemma keys_differ:
  "js ''a'' \<noteq> js ''detectedIntent''" "js ''a'' \<noteq> js ''suggestions''"
  "js ''detectedIntent'' \<noteq> js ''suggestions''"
  by (simp_all add: js_def)

lemma hello_general: "detectIntent patterns (js ''hello'') = js ''general''"
  by (rule detectIntent_none) (rule hello_tests)

text \<open>
  C8 as stated fails where the prompt has no suggestions and the incoming metadata has a
  \<open>suggestions\<close> key: the union with \<open>detectedIntent\<close> alone would keep the incoming
  value, the hook overwrites it with \<open>undefined\<close>.
\<close>

theorem metadata_union_counterexample:
  "suggestionsFor (detectIntent patterns (prompt clash_prompt)) = [] \<and>
   metadata clash_prompt (js ''suggestions'') = Some (Str (js ''mine'')) \<and>
   spec_metadata (metadata clash_prompt) (detectIntent patterns (prompt clash_prompt))
     (suggestionsFor (detectIntent patterns (prompt clash_prompt))) (js ''suggestions'') =
     Some (Str (js ''mine'')) \<and>
   out_metadata (fst (classify (env_with []) clash_prompt)) (js ''suggestions'') = Some Undefined"
proof -
  have p: "prompt clash_prompt = js ''hello''" by (simp add: clash_prompt_def)
  have m: "metadata clash_prompt (js ''suggestions'') = Some (Str (js ''mine''))"
    by (simp add: clash_prompt_def)
  show ?thesis
    using keys_differ(3)
    by (simp add: p m hello_general suggestionsFor_general spec_metadata_def classify_suggestions)
qed

text \<open>
  C8, amended. For every prompt event the metadata returned by \<open>classify\<close> is the incoming
  metadata with \<open>detectedIntent\<close> and \<open>suggestions\<close> set over it: every other incoming key
  keeps its value, \<open>detectedIntent\<close> is the detected intent, and \<open>suggestions\<close> is the list
  of suggestions when there are some and \<open>undefined\<close> otherwise, whatever the incoming
  metadata had there. When there are suggestions this is the union of the specification.
\<close>

theorem metadata_merge:
  "(\<forall>key. key \<noteq> js ''detectedIntent'' \<longrightarrow> key \<noteq> js ''suggestions'' \<longrightarrow>
      out_metadata (fst (classify w ctx)) key = metadata ctx key) \<and>
   out_metadata (fst (classify w ctx)) (js ''detectedIntent'') =
     Some (Str (detectIntent patterns (prompt ctx))) \<and>
   out_metadata (fst (classify w ctx)) (js ''suggestions'') =
     Some (if suggestionsFor (detectIntent patterns (prompt ctx)) \<noteq> []
           then StrList (suggestionsFor (detectIntent patterns (prompt ctx))) else Undefined) \<and>
   (suggestionsFor (detectIntent patterns (prompt ctx)) \<noteq> [] \<longrightarrow>
      out_metadata (fst (classify w ctx)) =
        spec_metadata (metadata ctx) (detectIntent patterns (prompt ctx))
          (suggestionsFor (detectIntent patterns (prompt ctx))))"
proof (intro conjI allI impI)
  fix key
  assume "key \<noteq> js ''detectedIntent''" "key \<noteq> js ''suggestions''"
  then show "out_metadata (fst (classify w ctx)) key = metadata ctx key"
    by (rule classify_other_keys)
next
  show "out_metadata (fst (classify w ctx)) (js ''detectedIntent'') =
     Some (Str (detectIntent patterns (prompt ctx)))"
    by (rule classify_detectedIntent)
next
  show "out_metadata (fst (classify w ctx)) (js ''suggestions'') =
     Some (if suggestionsFor (detectIntent patterns (prompt ctx)) \<noteq> []
           then StrList (suggestionsFor (detectIntent patterns (prompt ctx))) else Undefined)"
    by (rule classify_suggestions)
next
  assume "suggestionsFor (detectIntent patterns (prompt ctx)) \<noteq> []"
  then show "out_metadata (fst (classify w ctx)) =
        spec_metadata (metadata ctx) (detectIntent patterns (prompt ctx))
          (suggestionsFor (detectIntent patterns (prompt ctx)))"
    by (simp add: classify_def Let_def spec_metadata_def)
qed

theorem metadata_merge_witness:
  "js ''a'' \<noteq> js ''detectedIntent'' \<and> js ''a'' \<noteq> js ''suggestions'' \<and>
   metadata hello_prompt (js ''a'') = Some (Other 1) \<and>
   out_metadata (fst (classify (env_with []) hello_prompt)) (js ''a'') = Some (Other 1) \<and>
   out_metadata (fst (classify (env_with []) hello_prompt)) (js ''detectedIntent'') =
     Some (Str (js ''general'')) \<and>
   suggestionsFor (detectIntent patterns (prompt refactor_prompt)) \<noteq> [] \<and>
   out_metadata (fst (classify (env_with []) refactor_prompt)) =
     [js ''detectedIntent'' \<mapsto> Str (js ''refactoring''),
      js ''suggestions'' \<mapsto> StrList
       [bulb @ js '' Tip: The safe-refactoring skill ensures you refactor safely with tests'',
        bulb @ js '' Remember: refactor in small steps, running tests after each change'']]"
proof -
  have h: "prompt hello_prompt = js ''hello''" "metadata hello_prompt (js ''a'') = Some (Other 1)"
    by (simp_all add: hello_prompt_def)
  have r: "prompt refactor_prompt = js ''please refactor this messy function''"
    "metadata refactor_prompt = Map.empty"
    by (simp_all add: refactor_prompt_def)
  have "1 < length patterns" by (simp add: patterns_def)
  moreover have "\<forall>j < 1. \<not> rx_test True (snd (patterns ! j)) (js ''please refactor this messy function'')"
    using refactor_tests(1) by simp
  ultimately have "detectIntent patterns (js ''please refactor this messy function'') = fst (patterns ! 1)"
    using refactor_tests(2) by (intro detectIntent_first)
  then have d: "detectIntent patterns (js ''please refactor this messy function'') = js ''refactoring''"
    by (simp add: patterns_def)
  show ?thesis
    using metadata_merge [of "env_with []" hello_prompt]
      metadata_merge [of "env_with []" refactor_prompt] keys_differ
    by (simp add: h r hello_general d suggestionsFor_refactoring spec_metadata_def)
qed

text \<open>
  C9 as stated fails at the prompt "hello": no pattern matches, and the returned metadata
  does have the key \<open>suggestions\<close>, with the value \<open>undefined\<close>.
\<close>

theorem no_match_suggestions_key_counterexample:
  "list_all (\<lambda>e. \<not> rx_test True (snd e) (prompt hello_prompt)) patterns \<and>
   out_metadata (fst (classify (env_with []) hello_prompt)) (js ''suggestions'') = Some Undefined \<and>
   js ''suggestions'' \<in> dom (out_metadata (fst (classify (env_with []) hello_prompt)))"
proof -
  have h: "prompt hello_prompt = js ''hello''" by (simp add: hello_prompt_def)
  show ?thesis
    using hello_tests(1)
    by (simp add: h hello_general suggestionsFor_general classify_suggestions dom_def)
qed

text \<open>
  C9, amended. For every prompt that matches none of the three patterns, the empty prompt
  and "hello" among them, \<open>classify\<close> returns the intent \<open>general\<close> and no list of
  suggestions: the key \<open>suggestions\<close> of the returned metadata is there and holds
  \<open>undefined\<close>. The prompt is passed on as it is; there is no error.
\<close>

theorem no_match_general:
  "list_all (\<lambda>e. \<not> rx_test True (snd e) (js ''hello'')) patterns \<and>
   list_all (\<lambda>e. \<not> rx_test True (snd e) (js '''')) patterns \<and>
   (list_all (\<lambda>e. \<not> rx_test True (snd e) (prompt ctx)) patterns \<longrightarrow>
      out_metadata (fst (classify w ctx)) (js ''detectedIntent'') = Some (Str (js ''general'')) \<and>
      out_metadata (fst (classify w ctx)) (js ''suggestions'') = Some Undefined \<and>
      out_prompt (fst (classify w ctx)) = prompt ctx)"
proof (intro conjI impI)
  assume "list_all (\<lambda>e. \<not> rx_test True (snd e) (prompt ctx)) patterns"
  then have d: "detectIntent patterns (prompt ctx) = js ''general''"
    by (rule detectIntent_none)
  then show "out_metadata (fst (classify w ctx)) (js ''detectedIntent'') = Some (Str (js ''general''))"
    by (simp add: classify_detectedIntent)
  show "out_metadata (fst (classify w ctx)) (js ''suggestions'') = Some Undefined"
    by (simp add: classify_suggestions d suggestionsFor_general)
  show "out_prompt (fst (classify w ctx)) = prompt ctx"
    by (simp add: classify_def Let_def)
qed (rule hello_tests)+

theorem no_match_general_witness:
  "list_all (\<lambda>e. \<not> rx_test True (snd e) (prompt hello_prompt)) patterns \<and>
   out_metadata (fst (classify (env_with []) hello_prompt)) (js ''detectedIntent'') =
     Some (Str (js ''general'')) \<and>
   out_metadata (fst (classify (env_with []) hello_prompt)) (js ''suggestions'') = Some Undefined"
proof -
  have h: "prompt hello_prompt = js ''hello''" by (simp add: hello_prompt_def)
  show ?thesis
    using no_match_general [of hello_prompt "env_with []"] hello_tests(1)
    by (simp add: h)
qed

section \<open>Kinds and names of entries\<close>

lemma unreadable_iff: "unreadable w p \<longleftrightarrow> (\<exists>msg. fs w p = Unreadable msg)"
  by (cases "fs w p") (simp_all add: unreadable_def)

lemma lang_filter:
  assumes "\<forall>m \<in> set xs. lang_entry b m"
  shows "filter isTestFileModified xs = []" "filter isNoTestFile xs = []"
    "filter isFileTooLong xs = []"
  using assms lang_entry_kind by (auto simp: filter_empty_conv)

lemma lang_entry_names: "lang_entry b m \<Longrightarrow> file_names m = [b]"
  by (cases m) simp_all

lemma lang_filter_names:
  assumes "\<forall>m \<in> set xs. lang_entry b m" "t \<noteq> b"
  shows "filter (\<lambda>m. t \<in> set (file_names m)) xs = []"
  using assms lang_entry_names by (auto simp: filter_empty_conv)

lemma size_warning_filter:
  "filter isNoTestFile (size_warning w p) = []"
  "filter isFileTooLong (size_warning w p) = size_warning w p"
  by (auto simp: size_warning_def split: fsentry.splits)

lemma missing_warning_filter:
  "filter isFileTooLong (missing_warning w p) = []"
  by (simp add: missing_warning_def)

section \<open>The size of a file\<close>

lemma size_round:
  "fs w (filePath file) = File content \<Longrightarrow>
   length (js_split newline content) = Suc (length (filter (\<lambda>c. c = newline) content)) \<and>
   (\<exists>ns ws. processFile w file (a, lg) = (append_to a ns ws, lg) \<and>
      filter isFileTooLong ws =
        (if 600 < length (js_split newline content)
         then [FileTooLong (basename (filePath file)) (length (js_split newline content))]
         else []))"
proof -
  assume f: "fs w (filePath file) = File content"
  then have "\<forall>msg. fs w (filePath file) \<noteq> Unreadable msg" by simp
  from processFile_readable [OF this, of a lg]
  obtain ns ws where e: "processFile w file (a, lg) =
      (append_to a (ns @ test_note (filePath file))
         (ws @ missing_warning w (filePath file) @ size_warning w (filePath file)), lg)"
    and l: "\<forall>m \<in> set ns \<union> set ws. lang_entry (basename (filePath file)) m"
    by blast
  from l have "\<forall>m \<in> set ws. lang_entry (basename (filePath file)) m" by simp
  then have "filter isFileTooLong ws = []" by (rule lang_filter)
  then have "filter isFileTooLong
      (ws @ missing_warning w (filePath file) @ size_warning w (filePath file)) =
      size_warning w (filePath file)"
    by (simp add: missing_warning_filter size_warning_filter)
  also have "\<dots> = (if 600 < length (js_split newline content)
         then [FileTooLong (basename (filePath file)) (length (js_split newline content))]
         else [])"
    using f by (simp add: size_warning_def)
  finally show ?thesis using e length_js_split by blast
qed

lemma big_txt_facts:
  "basename (filePath (change (js ''big.txt''))) = js ''big.txt''"
  "fst (advise (env_with [(js ''big.txt'', File lines601)]) (batch [js ''big.txt''])) =
     \<lparr>out_notifications = None,
      out_warnings = Some [FileTooLong (js ''big.txt'') 601],
      out_errors = None\<rparr>"
  "fst (advise (env_with [(js ''big.txt'', File lines600)]) (batch [js ''big.txt''])) =
     \<lparr>out_notifications = None, out_warnings = None, out_errors = None\<rparr>"
  by code_simp+

text \<open>
  C6 as stated fails for an existing file that cannot be read: \<open>existsSync\<close> holds for
  \<open>big.txt\<close>, the read in the size block throws, no line is counted and no size warning is
  pushed, whatever the length of the file.
\<close>

theorem size_warning_unreadable_counterexample:
  "existsSync (env_with [(js ''big.txt'', Unreadable (js ''EACCES''))]) (js ''big.txt'') \<and>
   advise (env_with [(js ''big.txt'', Unreadable (js ''EACCES''))]) (batch [js ''big.txt'']) =
     (\<lparr>out_notifications = None, out_warnings = None, out_errors = None\<rparr>,
      [ErrorProcessing (js ''big.txt'') (js ''EACCES''),
       ChangeSummary (js ''2026-01-01T00:00:00.000Z'') (js ''edit'') 1 0 0 0])"
  by code_simp

text \<open>
  C6, amended. For every existing file whose text can be read, at any place of a batch,
  \<open>advise\<close> counts the lines of the text, one more than it has newlines, and emits the size
  warning for it if and only if the count is over 600, and then once: among the warnings
  that the result has for this file, the size warnings are that one or none. A text of
  601 lines gets exactly one size warning, a text of 600 lines gets none.
\<close>

theorem size_warning_over_600:
  "files ctx = pre @ file # post \<Longrightarrow> fs w (filePath file) = File content \<Longrightarrow>
   length (js_split newline content) = Suc (length (filter (\<lambda>c. c = newline) content)) \<and>
   (\<exists>ns ws ns' ws'.
     listed (out_notifications (fst (advise w (ctx\<lparr>files := pre @ [file]\<rparr>)))) =
       listed (out_notifications (fst (advise w (ctx\<lparr>files := pre\<rparr>)))) @ ns \<and>
     listed (out_warnings (fst (advise w (ctx\<lparr>files := pre @ [file]\<rparr>)))) =
       listed (out_warnings (fst (advise w (ctx\<lparr>files := pre\<rparr>)))) @ ws \<and>
     listed (out_notifications (fst (advise w ctx))) =
       listed (out_notifications (fst (advise w (ctx\<lparr>files := pre\<rparr>)))) @ ns @ ns' \<and>
     listed (out_warnings (fst (advise w ctx))) =
       listed (out_warnings (fst (advise w (ctx\<lparr>files := pre\<rparr>)))) @ ws @ ws' \<and>
     filter isFileTooLong ws =
        (if 600 < length (js_split newline content)
         then [FileTooLong (basename (filePath file)) (length (js_split newline content))]
         else []))"
proof -
  assume f: "files ctx = pre @ file # post" and c: "fs w (filePath file) = File content"
  obtain a lg where s: "processFiles w pre (no_advisories, []) = (a, lg)"
    by (cases "processFiles w pre (no_advisories, [])")
  from size_round [OF c, of a lg]
  obtain ns ws where r: "processFile w file (a, lg) = (append_to a ns ws, lg)"
    and k: "filter isFileTooLong ws =
        (if 600 < length (js_split newline content)
         then [FileTooLong (basename (filePath file)) (length (js_split newline content))]
         else [])"
    by blast
  from r s have "fst (processFile w file (processFiles w pre (no_advisories, []))) =
      append_to (fst (processFiles w pre (no_advisories, []))) ns ws"
    by simp
  from advise_rounds [OF f this] k length_js_split show ?thesis by blast
qed

theorem size_warning_over_600_witness:
  "files (batch [js ''big.txt'']) = [] @ change (js ''big.txt'') # [] \<and>
   fs (env_with [(js ''big.txt'', File lines601)]) (filePath (change (js ''big.txt''))) = File lines601 \<and>
   length (js_split newline lines601) = 601 \<and>
   (\<exists>ws ws'. listed (out_warnings (fst (advise (env_with [(js ''big.txt'', File lines601)])
                 (batch [js ''big.txt''])))) = ws @ ws' \<and>
      filter isFileTooLong ws = [FileTooLong (js ''big.txt'') 601]) \<and>
   out_warnings (fst (advise (env_with [(js ''big.txt'', File lines601)]) (batch [js ''big.txt'']))) =
     Some [FileTooLong (js ''big.txt'') 601] \<and>
   fs (env_with [(js ''big.txt'', File lines600)]) (filePath (change (js ''big.txt''))) = File lines600 \<and>
   length (js_split newline lines600) = 600 \<and>
   (\<exists>ws ws'. listed (out_warnings (fst (advise (env_with [(js ''big.txt'', File lines600)])
                 (batch [js ''big.txt''])))) = ws @ ws' \<and>
      filter isFileTooLong ws = []) \<and>
   out_warnings (fst (advise (env_with [(js ''big.txt'', File lines600)]) (batch [js ''big.txt'']))) =
     None"
proof -
  let ?w1 = "env_with [(js ''big.txt'', File lines601)]"
  let ?w0 = "env_with [(js ''big.txt'', File lines600)]"
  let ?ctx = "batch [js ''big.txt'']"
  have f1: "fs ?w1 (filePath (change (js ''big.txt''))) = File lines601"
    by (simp add: env_with_def change_def)
  have f0: "fs ?w0 (filePath (change (js ''big.txt''))) = File lines600"
    by (simp add: env_with_def change_def)
  have n1: "length (js_split newline lines601) = 601"
    by (simp add: length_js_split lines601_def)
  have n0: "length (js_split newline lines600) = 600"
    by (simp add: length_js_split lines600_def)
  from size_warning_over_600 [OF batch_single f1]
  obtain ws1 ws1' where
    "listed (out_warnings (fst (advise ?w1 ?ctx))) =
       listed (out_warnings (fst (advise ?w1 (?ctx\<lparr>files := []\<rparr>)))) @ ws1 @ ws1'"
    and "filter isFileTooLong ws1 =
        (if 600 < length (js_split newline lines601)
         then [FileTooLong (basename (filePath (change (js ''big.txt''))))
                 (length (js_split newline lines601))]
         else [])"
    by blast
  then have e1: "\<exists>ws ws'. listed (out_warnings (fst (advise ?w1 ?ctx))) = ws @ ws' \<and>
      filter isFileTooLong ws = [FileTooLong (js ''big.txt'') 601]"
    by (simp add: advise_no_files n1 big_txt_facts(1)) blast
  from size_warning_over_600 [OF batch_single f0]
  obtain ws0 ws0' where
    "listed (out_warnings (fst (advise ?w0 ?ctx))) =
       listed (out_warnings (fst (advise ?w0 (?ctx\<lparr>files := []\<rparr>)))) @ ws0 @ ws0'"
    and "filter isFileTooLong ws0 =
        (if 600 < length (js_split newline lines600)
         then [FileTooLong (basename (filePath (change (js ''big.txt''))))
                 (length (js_split newline lines600))]
         else [])"
    by blast
  then have e0: "\<exists>ws ws'. listed (out_warnings (fst (advise ?w0 ?ctx))) = ws @ ws' \<and>
      filter isFileTooLong ws = []"
    by (simp add: advise_no_files n0) blast
  show ?thesis
    using batch_single [of "js ''big.txt''"] f1 f0 n1 n0 e1 e0
    by (simp add: big_txt_facts)
qed

section \<open>Test files\<close>

lemma test_note_test: "isTestFile p \<Longrightarrow> test_note p = [TestFileModified (basename p)]"
  by (simp add: test_note_def)

lemma missing_warning_test: "isTestFile p \<Longrightarrow> missing_warning w p = []"
  by (simp add: missing_warning_def)

text \<open>
  C4 as stated fails twice. The path \<open>tests/foo.js\<close> has the segment \<open>tests\<close>, but the hook
  looks for \<open>/tests/\<close> with both slashes: it pushes no test-file notification, and a
  missing-test warning. And when \<open>src/utils.test.js\<close> exists and cannot be read,
  \<open>checkJavaScript\<close> throws before the notification is pushed.
\<close>

theorem test_file_classification_counterexample:
  "spec_isTestFile (js ''tests/foo.js'') \<and>
   fst (advise (env_with []) (batch [js ''tests/foo.js''])) =
     \<lparr>out_notifications = None,
      out_warnings = Some [NoTestFile (js ''foo.js'') (js ''foo.test.js'')],
      out_errors = None\<rparr> \<and>
   spec_isTestFile (js ''src/utils.test.js'') \<and>
   fst (advise (env_with [(js ''src/utils.test.js'', Unreadable (js ''EISDIR''))])
          (batch [js ''src/utils.test.js''])) =
     \<lparr>out_notifications = None, out_warnings = None, out_errors = None\<rparr>"
  by code_simp

lemma test_file_round:
  "isTestFile (filePath file) \<Longrightarrow>
   \<exists>ns ws. fst (processFile w file (a, lg)) = append_to a ns ws \<and>
     filter isNoTestFile ws = [] \<and>
     filter isTestFileModified ns =
       (if is_lang_ext (extname (filePath file)) \<and> unreadable w (filePath file) then []
        else [TestFileModified (basename (filePath file))])"
proof -
  let ?p = "filePath file"
  assume t: "isTestFile ?p"
  show ?thesis
  proof (cases "unreadable w ?p")
    case True
    then obtain msg where u: "fs w ?p = Unreadable msg"
      by (auto simp: unreadable_iff)
    show ?thesis
    proof (cases "is_lang_ext (extname ?p)")
      case True
      with processFile_unreadable [OF u, of a lg]
      have "fst (processFile w file (a, lg)) = append_to a [] []" by simp
      moreover have "filter isNoTestFile [] = []" by simp
      moreover have "filter isTestFileModified [] =
          (if is_lang_ext (extname ?p) \<and> unreadable w ?p then []
           else [TestFileModified (basename ?p)])"
        using True \<open>unreadable w ?p\<close> by simp
      ultimately show ?thesis by blast
    next
      case False
      with processFile_unreadable [OF u, of a lg]
      have "fst (processFile w file (a, lg)) = append_to a [TestFileModified (basename ?p)] []"
        by (simp add: test_note_test [OF t] missing_warning_test [OF t])
      moreover have "filter isNoTestFile [] = []" by simp
      moreover have "filter isTestFileModified [TestFileModified (basename ?p)] =
          (if is_lang_ext (extname ?p) \<and> unreadable w ?p then []
           else [TestFileModified (basename ?p)])"
        using False by simp
      ultimately show ?thesis by blast
    qed
  next
    case False
    then have "\<forall>msg. fs w ?p \<noteq> Unreadable msg" by (simp add: unreadable_iff)
    from processFile_readable [OF this, of a lg]
    obtain ns ws where e: "processFile w file (a, lg) =
        (append_to a (ns @ test_note ?p) (ws @ missing_warning w ?p @ size_warning w ?p), lg)"
      and l: "\<forall>m \<in> set ns \<union> set ws. lang_entry (basename ?p) m"
      by blast
    from l have ln: "\<forall>m \<in> set ns. lang_entry (basename ?p) m"
      and lw: "\<forall>m \<in> set ws. lang_entry (basename ?p) m" by simp_all
    have "fst (processFile w file (a, lg)) =
        append_to a (ns @ [TestFileModified (basename ?p)]) (ws @ size_warning w ?p)"
      using e by (simp add: test_note_test [OF t] missing_warning_test [OF t])
    moreover have "filter isNoTestFile (ws @ size_warning w ?p) = []"
      by (simp add: lang_filter(2) [OF lw] size_warning_filter)
    moreover have "filter isTestFileModified (ns @ [TestFileModified (basename ?p)]) =
        (if is_lang_ext (extname ?p) \<and> unreadable w ?p then []
         else [TestFileModified (basename ?p)])"
      using False by (simp add: lang_filter(1) [OF ln])
    ultimately show ?thesis by blast
  qed
qed

lemma utils_test_facts:
  "isTestFile (js ''src/utils.test.js'')"
  "basename (js ''src/utils.test.js'') = js ''utils.test.js''"
  by code_simp+

lemma utils_test_advise:
  "fst (advise (env_with []) (batch [js ''src/utils.test.js''])) =
     \<lparr>out_notifications = Some [TestFileModified (js ''utils.test.js'')],
      out_warnings = None, out_errors = None\<rparr>"
  by code_simp

text \<open>
  C4, amended. For every file change, at any place of a batch, whose path \<open>isTestFile\<close>
  accepts (the lower-cased base name contains \<open>.test.\<close>, \<open>.spec.\<close> or \<open>_test.\<close>, or starts
  with \<open>test_\<close>, or the path contains \<open>/tests/\<close>, \<open>/test/\<close> or \<open>/__tests__/\<close>), \<open>advise\<close> emits
  no missing-test warning for it, and exactly one test-file notification for it, unless
  the file has a language check and cannot be read: then it emits none.
\<close>

theorem test_file_notification:
  "files ctx = pre @ file # post \<Longrightarrow> isTestFile (filePath file) \<Longrightarrow>
   \<exists>ns ws ns' ws'.
     listed (out_notifications (fst (advise w (ctx\<lparr>files := pre @ [file]\<rparr>)))) =
       listed (out_notifications (fst (advise w (ctx\<lparr>files := pre\<rparr>)))) @ ns \<and>
     listed (out_warnings (fst (advise w (ctx\<lparr>files := pre @ [file]\<rparr>)))) =
       listed (out_warnings (fst (advise w (ctx\<lparr>files := pre\<rparr>)))) @ ws \<and>
     listed (out_notifications (fst (advise w ctx))) =
       listed (out_notifications (fst (advise w (ctx\<lparr>files := pre\<rparr>)))) @ ns @ ns' \<and>
     listed (out_warnings (fst (advise w ctx))) =
       listed (out_warnings (fst (advise w (ctx\<lparr>files := pre\<rparr>)))) @ ws @ ws' \<and>
     filter isNoTestFile ws = [] \<and>
     filter isTestFileModified ns =
       (if is_lang_ext (extname (filePath file)) \<and> unreadable w (filePath file) then []
        else [TestFileModified (basename (filePath file))])"
proof -
  assume f: "files ctx = pre @ file # post" and t: "isTestFile (filePath file)"
  obtain a lg where s: "processFiles w pre (no_advisories, []) = (a, lg)"
    by (cases "processFiles w pre (no_advisories, [])")
  from test_file_round [OF t, of w a lg]
  obtain ns ws where r: "fst (processFile w file (a, lg)) = append_to a ns ws"
    and k: "filter isNoTestFile ws = []"
      "filter isTestFileModified ns =
       (if is_lang_ext (extname (filePath file)) \<and> unreadable w (filePath file) then []
        else [TestFileModified (basename (filePath file))])"
    by blast
  from r s have "fst (processFile w file (processFiles w pre (no_advisories, []))) =
      append_to (fst (processFiles w pre (no_advisories, []))) ns ws"
    by simp
  from advise_rounds [OF f this] k show ?thesis by blast
qed

theorem test_file_notification_witness:
  "files (batch [js ''src/utils.test.js'']) = [] @ change (js ''src/utils.test.js'') # [] \<and>
   isTestFile (filePath (change (js ''src/utils.test.js''))) \<and>
   (\<exists>ns ws ns' ws'.
      listed (out_notifications (fst (advise (env_with []) (batch [js ''src/utils.test.js''])))) =
        ns @ ns' \<and>
      listed (out_warnings (fst (advise (env_with []) (batch [js ''src/utils.test.js''])))) =
        ws @ ws' \<and>
      filter isNoTestFile ws = [] \<and>
      filter isTestFileModified ns = [TestFileModified (js ''utils.test.js'')]) \<and>
   fst (advise (env_with []) (batch [js ''src/utils.test.js''])) =
     \<lparr>out_notifications = Some [TestFileModified (js ''utils.test.js'')],
      out_warnings = None, out_errors = None\<rparr>"
proof -
  let ?ctx = "batch [js ''src/utils.test.js'']"
  have p: "filePath (change (js ''src/utils.test.js'')) = js ''src/utils.test.js''"
    by (simp add: change_def)
  have t: "isTestFile (filePath (change (js ''src/utils.test.js'')))"
    by (simp add: p utils_test_facts)
  have r: "\<not> unreadable (env_with []) (js ''src/utils.test.js'')"
    by (simp add: unreadable_def env_with_def)
  from test_file_notification [OF batch_single t, of "env_with []"]
  obtain ns ws ns' ws' where
    "listed (out_notifications (fst (advise (env_with []) ?ctx))) =
       listed (out_notifications (fst (advise (env_with []) (?ctx\<lparr>files := []\<rparr>)))) @ ns @ ns'"
    "listed (out_warnings (fst (advise (env_with []) ?ctx))) =
       listed (out_warnings (fst (advise (env_with []) (?ctx\<lparr>files := []\<rparr>)))) @ ws @ ws'"
    "filter isNoTestFile ws = []"
    "filter isTestFileModified ns =
       (if is_lang_ext (extname (filePath (change (js ''src/utils.test.js'')))) \<and>
           unreadable (env_with []) (filePath (change (js ''src/utils.test.js''))) then []
        else [TestFileModified (basename (filePath (change (js ''src/utils.test.js''))))])"
    by blast
  then have "\<exists>ns ws ns' ws'.
      listed (out_notifications (fst (advise (env_with []) ?ctx))) = ns @ ns' \<and>
      listed (out_warnings (fst (advise (env_with []) ?ctx))) = ws @ ws' \<and>
      filter isNoTestFile ws = [] \<and>
      filter isTestFileModified ns = [TestFileModified (js ''utils.test.js'')]"
    by (simp add: advise_no_files p r utils_test_facts) blast
  then show ?thesis
    using batch_single [of "js ''src/utils.test.js''"] t utils_test_advise by simp
qed

section \<open>The missing test file\<close>

lemma calc_facts:
  "\<not> isTestFile (js ''src/calc.js'')"
  "isSourceFile (js ''src/calc.js'')"
  "getTestFilePath (js ''src/calc.js'') = js ''src/calc.test.js''"
  "basename (js ''src/calc.js'') = js ''calc.js''"
  "basename (js ''src/calc.test.js'') = js ''calc.test.js''"
  "js ''calc.test.js'' \<noteq> js ''calc.js''"
  "testPatterns (js ''src/calc.js'') =
     [js ''src/calc.test.js'', js ''src/calc.spec.js'', js ''src/__tests__/calc.test.js'',
      js ''tests/calc.test.js'']"
  "js_includes (render (NoTestFile (js ''calc.js'') (js ''calc.test.js''))) (js ''calc.test.js'')"
  by code_simp+

lemma size_warning_names:
  "t \<noteq> basename p \<Longrightarrow> filter (\<lambda>m. t \<in> set (file_names m)) (size_warning w p) = []"
  by (auto simp: size_warning_def split: fsentry.splits)

lemma tryBlock_frame:
  assumes "fs w' p = fs w p" "fs w' (getTestFilePath p) = fs w (getTestFilePath p)"
    "exec w' = exec w"
  shows "tryBlock w' p ext a = tryBlock w p ext a"
proof -
  have e: "runEslint w' p b = runEslint w p b" for b
    using assms(3) by (simp add: runEslint_def execSync_def)
  have l: "runPylint w' p b = runPylint w p b" for b
    using assms(3) by (simp add: runPylint_def execSync_def)
  have j: "checkJavaScript w' p b = checkJavaScript w p b" for b
    using assms(1) by (simp add: checkJavaScript_def existsSync_def readFileSync_def e Let_def
        split: fsentry.splits)
  have y: "checkPython w' p b = checkPython w p b" for b
    using assms(1) by (simp add: checkPython_def existsSync_def readFileSync_def l Let_def
        split: fsentry.splits)
  have m: "missingTestCheck w' p b = missingTestCheck w p b" for b
    using assms by (simp add: missingTestCheck_def existsSync_def)
  have z: "sizeCheck w' p b = sizeCheck w p b" for b
    using assms by (simp add: sizeCheck_def existsSync_def readFileSync_def)
  show ?thesis
    by (simp add: tryBlock_def j y m z split: prod.splits sum.splits)
qed

text \<open>
  C5 as stated fails when \<open>src/calc.js\<close> exists and cannot be read: \<open>checkJavaScript\<close>
  throws, and the round ends before the test file is looked for.
\<close>

theorem missing_test_counterexample:
  "fs (env_with [(js ''src/calc.js'', Unreadable (js ''EACCES''))]) (js ''src/calc.test.js'') = Missing \<and>
   fst (advise (env_with [(js ''src/calc.js'', Unreadable (js ''EACCES''))])
          (batch [js ''src/calc.js''])) =
     \<lparr>out_notifications = None, out_warnings = None, out_errors = None\<rparr>"
  by code_simp

lemma missing_test_round:
  "filePath file = js ''src/calc.js'' \<Longrightarrow>
   fs w (js ''src/calc.test.js'') = Missing \<Longrightarrow>
   \<not> unreadable w (js ''src/calc.js'') \<Longrightarrow>
   (\<exists>ns ws. processFile w file (a, lg) = (append_to a ns ws, lg) \<and>
      filter (\<lambda>m. js ''calc.test.js'' \<in> set (file_names m)) ws =
        [NoTestFile (js ''calc.js'') (js ''calc.test.js'')]) \<and>
   js_includes (render (NoTestFile (js ''calc.js'') (js ''calc.test.js''))) (js ''calc.test.js'') \<and>
   hd (testPatterns (js ''src/calc.js'')) = js ''src/calc.test.js'' \<and>
   (\<forall>w' :: env. fs w' (js ''src/calc.js'') = fs w (js ''src/calc.js'') \<longrightarrow>
         fs w' (js ''src/calc.test.js'') = Missing \<longrightarrow> exec w' = exec w \<longrightarrow>
         processFile w' file (a, lg) = processFile w file (a, lg))"
proof (intro conjI allI impI)
  assume p: "filePath file = js ''src/calc.js''"
    and t: "fs w (js ''src/calc.test.js'') = Missing"
    and r: "\<not> unreadable w (js ''src/calc.js'')"
  from r p have "\<forall>msg. fs w (filePath file) \<noteq> Unreadable msg"
    by (simp add: unreadable_iff)
  from processFile_readable [OF this, of a lg]
  obtain ns ws where e: "processFile w file (a, lg) =
      (append_to a (ns @ test_note (js ''src/calc.js''))
         (ws @ missing_warning w (js ''src/calc.js'') @ size_warning w (js ''src/calc.js'')), lg)"
    and l: "\<forall>m \<in> set ns \<union> set ws. lang_entry (js ''calc.js'') m"
    by (auto simp: p calc_facts)
  from l have lw: "\<forall>m \<in> set ws. lang_entry (js ''calc.js'') m" by simp
  have m: "missing_warning w (js ''src/calc.js'') = [NoTestFile (js ''calc.js'') (js ''calc.test.js'')]"
    using t by (simp add: missing_warning_def calc_facts)
  have "filter (\<lambda>m. js ''calc.test.js'' \<in> set (file_names m))
      (ws @ missing_warning w (js ''src/calc.js'') @ size_warning w (js ''src/calc.js'')) =
      [NoTestFile (js ''calc.js'') (js ''calc.test.js'')]"
    using calc_facts(6)
    by (simp add: lang_filter_names [OF lw calc_facts(6)] m size_warning_names calc_facts(4))
  with e show "\<exists>ns ws. processFile w file (a, lg) = (append_to a ns ws, lg) \<and>
      filter (\<lambda>m. js ''calc.test.js'' \<in> set (file_names m)) ws =
        [NoTestFile (js ''calc.js'') (js ''calc.test.js'')]"
    by blast
  show "js_includes (render (NoTestFile (js ''calc.js'') (js ''calc.test.js''))) (js ''calc.test.js'')"
    by (rule calc_facts)
  show "hd (testPatterns (js ''src/calc.js'')) = js ''src/calc.test.js''"
    by (simp add: calc_facts)
  fix w' :: env
  assume "fs w' (js ''src/calc.js'') = fs w (js ''src/calc.js'')"
    "fs w' (js ''src/calc.test.js'') = Missing" "exec w' = exec w"
  then have "tryBlock w' (js ''src/calc.js'') ext a = tryBlock w (js ''src/calc.js'') ext a" for ext
    using t by (intro tryBlock_frame) (simp_all add: calc_facts)
  then show "processFile w' file (a, lg) = processFile w file (a, lg)"
    by (simp add: processFile_def p)
qed

lemma calc_advise:
  "fst (advise (env_with [(js ''src/calc.js'', File (js ''x = 1''))]) (batch [js ''src/calc.js''])) =
     \<lparr>out_notifications = None,
      out_warnings = Some [NoTestFile (js ''calc.js'') (js ''calc.test.js'')],
      out_errors = None\<rparr>"
  by code_simp

text \<open>
  C5, amended. For the source file \<open>src/calc.js\<close>, absent or readable, at any place of a
  batch, with no \<open>src/calc.test.js\<close> in the file system, \<open>advise\<close> emits for it exactly one
  warning that names \<open>calc.test.js\<close>, the missing-test warning, whose text contains that
  name. Only the first candidate is looked for: what \<open>advise\<close> returns for the file alone
  is the same in every file system that agrees on \<open>src/calc.js\<close> and has no
  \<open>src/calc.test.js\<close>, whatever it has at the other candidates.
\<close>

theorem missing_test_warning:
  "files ctx = pre @ file # post \<Longrightarrow>
   filePath file = js ''src/calc.js'' \<Longrightarrow>
   fs w (js ''src/calc.test.js'') = Missing \<Longrightarrow>
   \<not> unreadable w (js ''src/calc.js'') \<Longrightarrow>
   (\<exists>ns ws ns' ws'.
     listed (out_notifications (fst (advise w (ctx\<lparr>files := pre @ [file]\<rparr>)))) =
       listed (out_notifications (fst (advise w (ctx\<lparr>files := pre\<rparr>)))) @ ns \<and>
     listed (out_warnings (fst (advise w (ctx\<lparr>files := pre @ [file]\<rparr>)))) =
       listed (out_warnings (fst (advise w (ctx\<lparr>files := pre\<rparr>)))) @ ws \<and>
     listed (out_notifications (fst (advise w ctx))) =
       listed (out_notifications (fst (advise w (ctx\<lparr>files := pre\<rparr>)))) @ ns @ ns' \<and>
     listed (out_warnings (fst (advise w ctx))) =
       listed (out_warnings (fst (advise w (ctx\<lparr>files := pre\<rparr>)))) @ ws @ ws' \<and>
     filter (\<lambda>m. js ''calc.test.js'' \<in> set (file_names m)) ws =
       [NoTestFile (js ''calc.js'') (js ''calc.test.js'')]) \<and>
   js_includes (render (NoTestFile (js ''calc.js'') (js ''calc.test.js''))) (js ''calc.test.js'') \<and>
   hd (testPatterns (js ''src/calc.js'')) = js ''src/calc.test.js'' \<and>
   (\<forall>w' :: env. fs w' (js ''src/calc.js'') = fs w (js ''src/calc.js'') \<longrightarrow>
         fs w' (js ''src/calc.test.js'') = Missing \<longrightarrow> exec w' = exec w \<longrightarrow>
         fst (advise w' (ctx\<lparr>files := [file]\<rparr>)) = fst (advise w (ctx\<lparr>files := [file]\<rparr>)))"
proof -
  assume f: "files ctx = pre @ file # post"
    and p: "filePath file = js ''src/calc.js''"
    and t: "fs w (js ''src/calc.test.js'') = Missing"
    and r: "\<not> unreadable w (js ''src/calc.js'')"
  obtain a lg where s: "processFiles w pre (no_advisories, []) = (a, lg)"
    by (cases "processFiles w pre (no_advisories, [])")
  from missing_test_round [OF p t r, of a lg]
  obtain ns ws where e: "processFile w file (a, lg) = (append_to a ns ws, lg)"
    and k: "filter (\<lambda>m. js ''calc.test.js'' \<in> set (file_names m)) ws =
        [NoTestFile (js ''calc.js'') (js ''calc.test.js'')]"
    and i: "js_includes (render (NoTestFile (js ''calc.js'') (js ''calc.test.js'')))
        (js ''calc.test.js'')"
    and h: "hd (testPatterns (js ''src/calc.js'')) = js ''src/calc.test.js''"
    and fr: "\<forall>w' :: env. fs w' (js ''src/calc.js'') = fs w (js ''src/calc.js'') \<longrightarrow>
         fs w' (js ''src/calc.test.js'') = Missing \<longrightarrow> exec w' = exec w \<longrightarrow>
         processFile w' file (no_advisories, []) = processFile w file (no_advisories, [])"
    using missing_test_round [OF p t r, of no_advisories "[]"] by blast
  from e s have "fst (processFile w file (processFiles w pre (no_advisories, []))) =
      append_to (fst (processFiles w pre (no_advisories, []))) ns ws"
    by simp
  from advise_rounds [OF f this] k
  have first: "\<exists>ns ws ns' ws'.
     listed (out_notifications (fst (advise w (ctx\<lparr>files := pre @ [file]\<rparr>)))) =
       listed (out_notifications (fst (advise w (ctx\<lparr>files := pre\<rparr>)))) @ ns \<and>
     listed (out_warnings (fst (advise w (ctx\<lparr>files := pre @ [file]\<rparr>)))) =
       listed (out_warnings (fst (advise w (ctx\<lparr>files := pre\<rparr>)))) @ ws \<and>
     listed (out_notifications (fst (advise w ctx))) =
       listed (out_notifications (fst (advise w (ctx\<lparr>files := pre\<rparr>)))) @ ns @ ns' \<and>
     listed (out_warnings (fst (advise w ctx))) =
       listed (out_warnings (fst (advise w (ctx\<lparr>files := pre\<rparr>)))) @ ws @ ws' \<and>
     filter (\<lambda>m. js ''calc.test.js'' \<in> set (file_names m)) ws =
       [NoTestFile (js ''calc.js'') (js ''calc.test.js'')]"
    by blast
  have frame: "\<forall>w' :: env. fs w' (js ''src/calc.js'') = fs w (js ''src/calc.js'') \<longrightarrow>
         fs w' (js ''src/calc.test.js'') = Missing \<longrightarrow> exec w' = exec w \<longrightarrow>
         fst (advise w' (ctx\<lparr>files := [file]\<rparr>)) = fst (advise w (ctx\<lparr>files := [file]\<rparr>))"
  proof (intro allI impI)
    fix w' :: env
    assume "fs w' (js ''src/calc.js'') = fs w (js ''src/calc.js'')"
      "fs w' (js ''src/calc.test.js'') = Missing" "exec w' = exec w"
    with fr have "processFile w' file (no_advisories, []) = processFile w file (no_advisories, [])"
      by blast
    then show "fst (advise w' (ctx\<lparr>files := [file]\<rparr>)) = fst (advise w (ctx\<lparr>files := [file]\<rparr>))"
      by (simp add: advise_def Let_def)
  qed
  from first i h frame show ?thesis by blast
qed

theorem missing_test_warning_witness:
  "files (batch [js ''src/calc.js'']) = [] @ change (js ''src/calc.js'') # [] \<and>
   filePath (change (js ''src/calc.js'')) = js ''src/calc.js'' \<and>
   fs (env_with [(js ''src/calc.js'', File (js ''x = 1''))]) (js ''src/calc.test.js'') = Missing \<and>
   \<not> unreadable (env_with [(js ''src/calc.js'', File (js ''x = 1''))]) (js ''src/calc.js'') \<and>
   (\<exists>ws ws'.
      listed (out_warnings (fst (advise (env_with [(js ''src/calc.js'', File (js ''x = 1''))])
         (batch [js ''src/calc.js''])))) = ws @ ws' \<and>
      filter (\<lambda>m. js ''calc.test.js'' \<in> set (file_names m)) ws =
        [NoTestFile (js ''calc.js'') (js ''calc.test.js'')]) \<and>
   fst (advise (env_with [(js ''src/calc.js'', File (js ''x = 1''))]) (batch [js ''src/calc.js''])) =
     \<lparr>out_notifications = None,
      out_warnings = Some [NoTestFile (js ''calc.js'') (js ''calc.test.js'')],
      out_errors = None\<rparr>"
proof -
  let ?w = "env_with [(js ''src/calc.js'', File (js ''x = 1''))]"
  let ?ctx = "batch [js ''src/calc.js'']"
  have p: "filePath (change (js ''src/calc.js'')) = js ''src/calc.js''"
    by (simp add: change_def)
  have t: "fs ?w (js ''src/calc.test.js'') = Missing"
    by code_simp
  have r: "\<not> unreadable ?w (js ''src/calc.js'')"
    by (simp add: unreadable_def env_with_def)
  from missing_test_warning [OF batch_single p t r]
  obtain ws ws' where
    "listed (out_warnings (fst (advise ?w ?ctx))) =
       listed (out_warnings (fst (advise ?w (?ctx\<lparr>files := []\<rparr>)))) @ ws @ ws'"
    "filter (\<lambda>m. js ''calc.test.js'' \<in> set (file_names m)) ws =
       [NoTestFile (js ''calc.js'') (js ''calc.test.js'')]"
    by blast
  then have "\<exists>ws ws'. listed (out_warnings (fst (advise ?w ?ctx))) = ws @ ws' \<and>
      filter (\<lambda>m. js ''calc.test.js'' \<in> set (file_names m)) ws =
        [NoTestFile (js ''calc.js'') (js ''calc.test.js'')]"
    by (simp add: advise_no_files) blast
  then show ?thesis
    using batch_single [of "js ''src/calc.js''"] p t r calc_advise by simp
qed

section \<open>A file that cannot be analysed\<close>









end
